theory Spec2Isabelle
  imports
    Main
    "HOL-Library.Sublist"
    "HOL-Library.AList"
    "HOL-Library.Char_ord"
    "HOL-Library.List_Lexorder"
    "HOL-Library.Multiset"
begin

section \<open>JavaScript values as they reach the explorer\<close>

text \<open>
  Every document the explorer handles is the result of \<^verbatim>\<open>response.json()\<close>, so the
  untyped (\<^verbatim>\<open>any\<close>) parameters of the source range over parsed JSON.  An object is
  kept as the list of its own properties, each name once, in the order
  \<^verbatim>\<open>Object.keys\<close> enumerates them.  Numbers are the integer-valued ones (GBFS counters); arithmetic on them is exact
  below \<open>2^53\<close>.  The JavaScript value \<^verbatim>\<open>undefined\<close> is \<open>None\<close> of
  \<open>json option\<close>.
\<close>

datatype json =
    JNull
  | JBool bool
  | JNum int
  | JStr string
  | JArr "json list"
  | JObj "(string \<times> json) list"

text \<open>
  What a function can throw.  \<open>FetchFailed\<close> is a rejected \<^verbatim>\<open>fetch\<close> (with the
  rejection's message), \<open>Error\<close> a \<^verbatim>\<open>throw new Error(msg)\<close> of the source.
  \<open>OutsideModel\<close> is not a JavaScript exception: it marks the inputs on which
  \<^verbatim>\<open>+\<close> or \<^verbatim>\<open>*\<close> would coerce a string, array or object operand, where the source
  leaves integer arithmetic and this development does not follow it.
\<close>

datatype error =
    TypeError
  | SyntaxError
  | FetchFailed string
  | Error string
  | OutsideModel

text \<open>JavaScript truthiness (\<^verbatim>\<open>!!v\<close>).\<close>

fun truthy :: "json option \<Rightarrow> bool" where
  "truthy None = False"
| "truthy (Some JNull) = False"
| "truthy (Some (JBool b)) = b"
| "truthy (Some (JNum n)) = (n \<noteq> 0)"
| "truthy (Some (JStr s)) = (s \<noteq> [])"
| "truthy (Some (JArr xs)) = True"
| "truthy (Some (JObj kvs)) = True"

text \<open>\<^verbatim>\<open>a || b\<close> on values.\<close>

definition orElse :: "json option \<Rightarrow> json option \<Rightarrow> json option" where
  "orElse a b = (if truthy a then a else b)"

text \<open>The decimal property name of an array or string index.\<close>

definition digitChar :: "nat \<Rightarrow> char" where
  "digitChar d = char_of (48 + d)"

fun decimal :: "nat \<Rightarrow> string" where
  "decimal n = (if n < 10 then [digitChar n] else decimal (n div 10) @ [digitChar (n mod 10)])"

declare decimal.simps [simp del]

text \<open>
  The own enumerable properties: those of an object, the indices of an array, the
  character indices of a string; numbers and booleans have none.
\<close>

fun ownProps :: "json \<Rightarrow> (string \<times> json) list" where
  "ownProps (JObj kvs) = kvs"
| "ownProps (JArr xs) = zip (map decimal [0..<length xs]) xs"
| "ownProps (JStr s) = zip (map decimal [0..<length s]) (map (\<lambda>c. JStr [c]) s)"
| "ownProps v = []"

text \<open>
  Property read \<^verbatim>\<open>v.k\<close> / \<^verbatim>\<open>v[k]\<close>.  Reading a property of \<^verbatim>\<open>null\<close> or
  \<^verbatim>\<open>undefined\<close> throws a TypeError; on every other value a name that is not an own
  property reads as \<^verbatim>\<open>undefined\<close> (none of the names the explorer reads this way is
  defined on a built-in prototype; \<^verbatim>\<open>length\<close> is treated where the source reads it).
  \<open>field\<close> is the read on a value already known not to be
  \<^verbatim>\<open>null\<close>; \<open>getProp\<close> is the unguarded read.
\<close>

definition field :: "json \<Rightarrow> string \<Rightarrow> json option" where
  "field v k = map_of (ownProps v) k"

fun getProp :: "json option \<Rightarrow> string \<Rightarrow> error + json option" where
  "getProp None k = Inl TypeError"
| "getProp (Some JNull) k = Inl TypeError"
| "getProp (Some v) k = Inr (field v k)"

text \<open>Sequencing of computations that may throw.\<close>

fun bindE :: "error + 'a \<Rightarrow> ('a \<Rightarrow> error + 'b) \<Rightarrow> error + 'b" where
  "bindE (Inl e) f = Inl e"
| "bindE (Inr v) f = f v"

text \<open>\<^verbatim>\<open>Array.prototype.some\<close> with a callback that may throw: stops at the first hit.\<close>

fun someE :: "('a \<Rightarrow> error + bool) \<Rightarrow> 'a list \<Rightarrow> error + bool" where
  "someE p [] = Inr False"
| "someE p (x # xs) = bindE (p x) (\<lambda>b. if b then Inr True else someE p xs)"

section \<open>Operator classification (\<^verbatim>\<open>utils/gbfsClassification.ts\<close>)\<close>

datatype OperatorType = station_based | free_floating | unknown

text \<open>A \<^verbatim>\<open>Record<string, string>\<close> of feed names to URLs, in key order.\<close>

type_synonym feedMap = "(string \<times> string) list"

definition STATION_FEED_NAMES :: "string list" where
  "STATION_FEED_NAMES = [''station_information'', ''station_status'']"

definition VEHICLE_FEED_NAMES :: "string list" where
  "VEHICLE_FEED_NAMES = [''vehicle_status'', ''free_bike_status'']"

text \<open>
  The callback \<^verbatim>\<open>vt => vt.form_factor && vt.form_factor.includes('scooter')\<close>.
  \<^verbatim>\<open>includes\<close> is the substring test on a string and the membership test on an array;
  on any other truthy value it is not a function and the call throws.
\<close>

definition formFactorHasScooter :: "json \<Rightarrow> error + bool" where
  "formFactorHasScooter vt =
     bindE (getProp (Some vt) ''form_factor'') (\<lambda>ff.
       if \<not> truthy ff then Inr False
       else (case ff of
               Some (JStr s) \<Rightarrow> Inr (sublist ''scooter'' s)
             | Some (JArr xs) \<Rightarrow> Inr (JStr ''scooter'' \<in> set xs)
             | _ \<Rightarrow> Inl TypeError))"

text \<open>
  The scooter override block: \<open>Inr True\<close> when the function returns
  \<^verbatim>\<open>'free_floating'\<close> from inside it, \<open>Inr False\<close> when control falls through.
\<close>

definition scooterOverride :: "json option \<Rightarrow> error + bool" where
  "scooterOverride vehicleTypesData =
     (if \<not> truthy vehicleTypesData then Inr False
      else bindE (getProp vehicleTypesData ''vehicle_types'') (\<lambda>vehicleTypes.
        if \<not> truthy vehicleTypes then Inr False
        else (case vehicleTypes of
                Some (JArr vts) \<Rightarrow> someE formFactorHasScooter vts
              | _ \<Rightarrow> Inr False)))"

definition classifyOperatorType :: "feedMap \<Rightarrow> json option \<Rightarrow> error + OperatorType" where
  "classifyOperatorType feedsFromDiscovery vehicleTypesData =
     (if length (map fst feedsFromDiscovery) = 0 then Inr unknown
      else
        let availableFeeds = map fst feedsFromDiscovery in
        bindE (scooterOverride vehicleTypesData) (\<lambda>hasScooters.
          if hasScooters then Inr free_floating
          else
            let hasStationFeeds = list_all (\<lambda>feedName. feedName \<in> set availableFeeds) STATION_FEED_NAMES;
                hasVehicleFeeds = list_ex (\<lambda>feedName. feedName \<in> set availableFeeds) VEHICLE_FEED_NAMES
            in if hasStationFeeds then Inr station_based
               else if hasVehicleFeeds then Inr free_floating
               else Inr unknown))"

text \<open>
  The reclassification step of \<^verbatim>\<open>processOperatorsInBulk\<close>: once the optional
  \<^verbatim>\<open>vehicle_types\<close> document has arrived the operator is classified again with it, and
  the stored verdict is replaced when the new one differs.
\<close>

record operatorData =
  operatorType :: "OperatorType option"
  feedsFromDiscovery :: "feedMap option"
  vehicleTypesRaw :: "json option"

definition reclassify :: "operatorData \<Rightarrow> error + operatorData" where
  "reclassify d =
     (case (operatorType d, feedsFromDiscovery d) of
        (Some old, Some feeds) \<Rightarrow>
          if truthy (vehicleTypesRaw d) then
            bindE (classifyOperatorType feeds (vehicleTypesRaw d)) (\<lambda>newOperatorType.
              if newOperatorType \<noteq> old then Inr (d\<lparr>operatorType := Some newOperatorType\<rparr>)
              else Inr d)
          else Inr d
      | _ \<Rightarrow> Inr d)"

section \<open>Discovery document parser (\<^verbatim>\<open>discoverFeeds\<close>)\<close>

text \<open>
  \<^verbatim>\<open>discoveredFeedUrls[feed.name] = feed.url\<close> on a plain object.  The name
  \<^verbatim>\<open>__proto__\<close> reaches the prototype setter, which ignores a string, so no property
  is created for it.
\<close>

definition assignFeed :: "feedMap \<Rightarrow> string \<Rightarrow> string \<Rightarrow> feedMap" where
  "assignFeed m k u = (if k = ''__proto__'' then m else AList.update k u m)"

text \<open>
  The \<^verbatim>\<open>forEach\<close> callback, the same in both branches:
  \<^verbatim>\<open>if (feed && typeof feed.name === 'string' && typeof feed.url === 'string')\<close>.
\<close>

definition acceptFeed :: "feedMap \<Rightarrow> json \<Rightarrow> feedMap" where
  "acceptFeed m feed =
     (if truthy (Some feed) then
        (case (field feed ''name'', field feed ''url'') of
           (Some (JStr n), Some (JStr u)) \<Rightarrow> assignFeed m n u
         | _ \<Rightarrow> m)
      else m)"

text \<open>\<^verbatim>\<open>v.feeds && Array.isArray(v.feeds)\<close>, for \<open>v\<close> not \<^verbatim>\<open>null\<close>.\<close>

definition feedList :: "json \<Rightarrow> json list option" where
  "feedList v = (case field v ''feeds'' of Some (JArr fs) \<Rightarrow> Some fs | _ \<Rightarrow> None)"

text \<open>\<^verbatim>\<open>langData && typeof langData === 'object'\<close>: an object or an array.\<close>

fun isObjectValue :: "json option \<Rightarrow> bool" where
  "isObjectValue (Some (JObj kvs)) = True"
| "isObjectValue (Some (JArr xs)) = True"
| "isObjectValue v = False"

text \<open>\<^verbatim>\<open>v.name || nameFromGbfsJson\<close>.\<close>

definition nameOr :: "json option \<Rightarrow> json \<Rightarrow> json" where
  "nameOr v n = (case v of Some w \<Rightarrow> if truthy (Some w) then w else n | None \<Rightarrow> n)"

text \<open>\<^verbatim>\<open>[...new Set(xs)]\<close>: the first occurrence of each element, in order.\<close>

definition setOrder :: "'a list \<Rightarrow> 'a list" where
  "setOrder xs = foldl (\<lambda>acc x. if x \<in> set acc then acc else acc @ [x]) [] xs"

text \<open>
  The loop over \<^verbatim>\<open>allLangKeys\<close>.  The first component tells whether the loop left the
  function through its \<^verbatim>\<open>return\<close>; the others are \<^verbatim>\<open>discoveredFeedUrls\<close> and
  \<^verbatim>\<open>nameFromGbfsJson\<close> at that point.
\<close>

fun scanLangs :: "json \<Rightarrow> string list \<Rightarrow> feedMap \<Rightarrow> json \<Rightarrow> bool \<times> feedMap \<times> json" where
  "scanLangs gbfsContent [] m n = (False, m, n)"
| "scanLangs gbfsContent (lang # langs) m n =
     (case field gbfsContent lang of
        None \<Rightarrow> scanLangs gbfsContent langs m n
      | Some langData \<Rightarrow>
          if isObjectValue (Some langData) then
            (case feedList langData of
               Some fs \<Rightarrow>
                 let m' = foldl acceptFeed m fs;
                     n' = nameOr (field langData ''name'') n
                 in if length (map fst m') > 0 then (True, m', n')
                    else scanLangs gbfsContent langs m' n'
             | None \<Rightarrow> scanLangs gbfsContent langs m n)
          else scanLangs gbfsContent langs m n)"

record discovery =
  discoveredFeedUrls :: feedMap
  nameFromGbfsJson :: json

definition langPriority :: "string list" where
  "langPriority = [''en'', ''nb'']"

text \<open>
  Lines 70 to 73: the document itself, or its \<^verbatim>\<open>data\<close> member when that is truthy
  and the document has no truthy \<^verbatim>\<open>feeds\<close>.  Reading \<^verbatim>\<open>rawGbfsJson.data\<close> throws
  when the document is \<^verbatim>\<open>null\<close>.
\<close>

definition unwrapEnvelope :: "json \<Rightarrow> error + json" where
  "unwrapEnvelope rawGbfsJson =
     bindE (getProp (Some rawGbfsJson) ''data'') (\<lambda>rawData.
       case rawData of
         Some d \<Rightarrow>
           if truthy (Some d) \<and> \<not> truthy (field rawGbfsJson ''feeds'') then Inr d
           else Inr rawGbfsJson
       | None \<Rightarrow> Inr rawGbfsJson)"

definition discoverFeeds :: "json \<Rightarrow> string \<Rightarrow> error + discovery" where
  "discoverFeeds rawGbfsJson initialOperatorName =
     bindE (unwrapEnvelope rawGbfsJson) (\<lambda>gbfsContent.
       let allLangKeys = setOrder (langPriority @ map fst (ownProps gbfsContent))
       in case scanLangs gbfsContent allLangKeys [] (JStr initialOperatorName) of
            (True, m, n) \<Rightarrow> Inr \<lparr>discoveredFeedUrls = m, nameFromGbfsJson = n\<rparr>
          | (False, m, n) \<Rightarrow>
              (case feedList gbfsContent of
                 Some fs \<Rightarrow>
                   Inr \<lparr>discoveredFeedUrls = foldl acceptFeed m fs,
                        nameFromGbfsJson = nameOr (field gbfsContent ''name'') n\<rparr>
               | None \<Rightarrow> Inr \<lparr>discoveredFeedUrls = m, nameFromGbfsJson = n\<rparr>))"

section \<open>Status feed normalizers\<close>

text \<open>
  The object the pipeline hands to both normalizers,
  \<^verbatim>\<open>{ data, last_updated, ttl }\<close>.
\<close>

record parsedFeed =
  data :: "json option"
  last_updated :: "json option"
  ttl :: "json option"

subsection \<open>\<^verbatim>\<open>countFreeFloatingVehicles\<close>\<close>

record vehicleCounts =
  total :: nat
  available :: nat

text \<open>
  The \<^verbatim>\<open>filter\<close> callback
  \<^verbatim>\<open>v => v.is_disabled === false && v.is_reserved === false\<close>; the read throws on a
  \<^verbatim>\<open>null\<close> entry.
\<close>

definition isAvailableVehicle :: "json \<Rightarrow> error + bool" where
  "isAvailableVehicle v =
     bindE (getProp (Some v) ''is_disabled'') (\<lambda>d.
       if d = Some (JBool False) then
         bindE (getProp (Some v) ''is_reserved'') (\<lambda>r. Inr (r = Some (JBool False)))
       else Inr False)"

fun filterE :: "('a \<Rightarrow> error + bool) \<Rightarrow> 'a list \<Rightarrow> error + 'a list" where
  "filterE p [] = Inr []"
| "filterE p (x # xs) =
     bindE (p x) (\<lambda>b. bindE (filterE p xs) (\<lambda>ys. Inr (if b then x # ys else ys)))"

text \<open>\<^verbatim>\<open>d.k && Array.isArray(d.k)\<close>, for \<open>d\<close> not \<^verbatim>\<open>null\<close>.\<close>

definition arrayField :: "json \<Rightarrow> string \<Rightarrow> json list option" where
  "arrayField d k = (case field d k of Some (JArr xs) \<Rightarrow> Some xs | _ \<Rightarrow> None)"

definition countFreeFloatingVehicles :: "parsedFeed \<Rightarrow> error + vehicleCounts option" where
  "countFreeFloatingVehicles parsedFeed =
     (case data parsedFeed of
        None \<Rightarrow> Inr None
      | Some d \<Rightarrow>
          if \<not> truthy (Some d) then Inr None
          else
            (case (case arrayField d ''vehicles'' of
                     Some vs \<Rightarrow> Some vs
                   | None \<Rightarrow> arrayField d ''bikes'') of
               None \<Rightarrow> Inr None
             | Some vehicles \<Rightarrow>
                 bindE (filterE isAvailableVehicle vehicles) (\<lambda>availableVehicles.
                   Inr (Some \<lparr>total = length vehicles,
                              available = length availableVehicles\<rparr>))))"

subsection \<open>\<^verbatim>\<open>parseStationStatusFeed\<close>\<close>

text \<open>
  \<^verbatim>\<open>typeof v === 'number'\<close> followed by \<^verbatim>\<open>acc += v\<close>: the addend, or nothing.
\<close>

definition numberOr0 :: "json option \<Rightarrow> int" where
  "numberOr0 v = (case v of Some (JNum n) \<Rightarrow> n | _ \<Rightarrow> 0)"

fun isNumber :: "json option \<Rightarrow> bool" where
  "isNumber (Some (JNum n)) = True"
| "isNumber v = False"

text \<open>
  One step of \<^verbatim>\<open>reduce((sum, vt) => sum + (vt.count || 0), 0)\<close>.  The read throws on a
  \<^verbatim>\<open>null\<close> entry; a count that is \<^verbatim>\<open>true\<close> adds 1; a truthy string, array or
  object would turn the sum into a string.
\<close>

definition addCount :: "int \<Rightarrow> json \<Rightarrow> error + int" where
  "addCount acc vt =
     bindE (getProp (Some vt) ''count'') (\<lambda>c.
       if \<not> truthy c then Inr (acc + 0)
       else (case c of
               Some (JNum n) \<Rightarrow> Inr (acc + n)
             | Some (JBool b) \<Rightarrow> Inr (acc + 1)
             | _ \<Rightarrow> Inl OutsideModel))"

fun reduceE :: "('b \<Rightarrow> 'a \<Rightarrow> error + 'b) \<Rightarrow> 'b \<Rightarrow> 'a list \<Rightarrow> error + 'b" where
  "reduceE f acc [] = Inr acc"
| "reduceE f acc (x # xs) = bindE (f acc x) (\<lambda>acc'. reduceE f acc' xs)"

text \<open>
  The accumulators of the \<^verbatim>\<open>forEach\<close> over the stations.  \<^verbatim>\<open>stationIds\<close> is a
  \<^verbatim>\<open>Set\<close>: primitive identifiers (a missing \<^verbatim>\<open>station_id\<close>, that is
  \<^verbatim>\<open>undefined\<close>, among them) are compared by value and kept once in \<open>idValues\<close>; an
  identifier that is an array or object is a fresh reference of the parsed document, equal
  to no other, so each one adds a member, counted in \<open>idRefs\<close>.
\<close>

record stationAcc =
  totalBikesAvailable :: int
  totalBikesTotal :: int
  totalDocksAvailable :: int
  idValues :: "json option list"
  idRefs :: nat

definition addStationId :: "json option \<Rightarrow> stationAcc \<Rightarrow> stationAcc" where
  "addStationId sid acc =
     (if isObjectValue sid then acc\<lparr>idRefs := idRefs acc + 1\<rparr>
      else if sid \<in> set (idValues acc) then acc
      else acc\<lparr>idValues := idValues acc @ [sid]\<rparr>)"

definition bikesAtStation :: "json \<Rightarrow> error + int" where
  "bikesAtStation station =
     (case arrayField station ''vehicle_types_available'' of
        Some vta \<Rightarrow> reduceE addCount 0 vta
      | None \<Rightarrow>
          Inr ((if isNumber (field station ''num_bikes_available'')
                  then 0 + numberOr0 (field station ''num_bikes_available'')
                else if isNumber (field station ''num_vehicles_available'')
                  then 0 + numberOr0 (field station ''num_vehicles_available'')
                else 0)
               + numberOr0 (field station ''num_ebikes_available'')))"

definition stationStep :: "stationAcc \<Rightarrow> json \<Rightarrow> error + stationAcc" where
  "stationStep acc station =
     bindE (getProp (Some station) ''station_id'') (\<lambda>sid.
       bindE (bikesAtStation station) (\<lambda>bikes.
         let totalBikesAtStation =
               bikes + numberOr0 (field station ''num_bikes_disabled'')
                     + numberOr0 (field station ''num_vehicles_disabled'')
         in Inr ((addStationId sid acc)
                   \<lparr>totalBikesAvailable := totalBikesAvailable acc + bikes,
                    totalBikesTotal := totalBikesTotal acc + totalBikesAtStation,
                    totalDocksAvailable :=
                      totalDocksAvailable acc + numberOr0 (field station ''num_docks_available'')\<rparr>)))"

record stationTotals =
  bikesAvailable :: int
  bikesTotal :: int
  docksAvailable :: int
  stationCount :: nat
  parseError :: "string option"

definition parseStationStatusFeed :: "parsedFeed \<Rightarrow> error + stationTotals option" where
  "parseStationStatusFeed parsedFeed =
     (case data parsedFeed of
        None \<Rightarrow> Inr None
      | Some d \<Rightarrow>
          if \<not> truthy (Some d) then Inr None
          else
            (case field d ''stations'' of
               Some (JArr stations) \<Rightarrow>
                 bindE (reduceE stationStep
                          \<lparr>totalBikesAvailable = 0, totalBikesTotal = 0, totalDocksAvailable = 0,
                           idValues = [], idRefs = 0\<rparr> stations) (\<lambda>acc.
                   Inr (Some \<lparr>bikesAvailable = totalBikesAvailable acc,
                              bikesTotal = totalBikesTotal acc,
                              docksAvailable = totalDocksAvailable acc,
                              stationCount = length (idValues acc) + idRefs acc,
                              parseError = None\<rparr>))
             | _ \<Rightarrow> Inr None))"

section \<open>Concurrent feed fetch and cache (\<^verbatim>\<open>api/v2/gbfs-feeds.js\<close>)\<close>

record GBFSFeed =
  name :: string
  url :: string

text \<open>
  One element of the response array, \<^verbatim>\<open>{ feed_name, data, error }\<close>; \<^verbatim>\<open>null\<close> data
  is \<open>JNull\<close>, a \<^verbatim>\<open>null\<close> error is \<open>None\<close>.
\<close>

record feedResult =
  feed_name :: string
  feed_data :: json
  feed_error :: "string option"

text \<open>
  What the network does with one \<^verbatim>\<open>fetch\<close>: the promise rejects with a message, or
  it is still pending when the 10 second timer fires and the controller aborts it
  (\<open>TimesOut\<close>), or a response arrives with its status, status text and a body that
  \<^verbatim>\<open>response.json()\<close> parses (\<open>Inr\<close>) or rejects with a message (\<open>Inl\<close>), or a
  response arrives with its status and status text and its body never completes
  (\<open>Stalls\<close>).  The timer is cleared as soon as the response arrives (line 17), before
  the body is read (line 27), so nothing aborts a stalled body.
\<close>

datatype fetchOutcome =
    Rejects string
  | TimesOut
  | Responds nat string "string + json"
  | Stalls nat string

text \<open>The message of the AbortError that an aborted \<^verbatim>\<open>fetch\<close> rejects with.\<close>

definition abortMessage :: string where
  "abortMessage = ''This operation was aborted''"

text \<open>\<^verbatim>\<open>error.message || 'Unknown error'\<close>.\<close>

definition messageOrUnknown :: "string \<Rightarrow> string" where
  "messageOrUnknown msg = (if msg = [] then ''Unknown error'' else msg)"

definition responseOk :: "nat \<Rightarrow> bool" where
  "responseOk st = (200 \<le> st \<and> st \<le> 299)"

definition failedFeed :: "GBFSFeed \<Rightarrow> string \<Rightarrow> feedResult" where
  "failedFeed feed msg = \<lparr>feed_name = name feed, feed_data = JNull, feed_error = Some msg\<rparr>"

text \<open>
  The promise of \<^verbatim>\<open>fetchSingleFeed\<close>: \<open>Some\<close> the object it resolves to, \<open>None\<close>
  when it never settles.  A response that is not ok is answered from its status alone; an
  ok response is answered once \<^verbatim>\<open>response.json()\<close> settles.
\<close>

fun fetchSingleFeed :: "fetchOutcome \<Rightarrow> GBFSFeed \<Rightarrow> feedResult option" where
  "fetchSingleFeed (Rejects msg) feed = Some (failedFeed feed (messageOrUnknown msg))"
| "fetchSingleFeed TimesOut feed = Some (failedFeed feed (messageOrUnknown abortMessage))"
| "fetchSingleFeed (Responds st statusText body) feed =
     (if \<not> responseOk st then
        Some (failedFeed feed (''HTTP '' @ decimal st @ '': '' @ statusText))
      else (case body of
              Inl msg \<Rightarrow> Some (failedFeed feed (messageOrUnknown msg))
            | Inr d \<Rightarrow> Some \<lparr>feed_name = name feed, feed_data = d, feed_error = None\<rparr>))"
| "fetchSingleFeed (Stalls st statusText) feed =
     (if \<not> responseOk st then
        Some (failedFeed feed (''HTTP '' @ decimal st @ '': '' @ statusText))
      else None)"

record cacheEntry =
  cached :: "feedResult list"
  timestamp :: int

text \<open>
  The module-level \<^verbatim>\<open>Map\<close>.  Its key is \<^verbatim>\<open>JSON.stringify\<close> of the sorted URL
  array, which is one-to-one on arrays of strings, so the sorted array itself serves as
  the key.  Two requests have the same key exactly when they list the same URLs the same
  number of times, whichever total order does the sorting.
\<close>

type_synonym feedCache = "string list \<rightharpoonup> cacheEntry"

definition CACHE_TTL :: int where
  "CACHE_TTL = 60 * 1000"

definition cacheKey :: "GBFSFeed list \<Rightarrow> string list" where
  "cacheKey feeds = sort (map url feeds)"

record request =
  httpMethod :: string
  bodyFeeds :: "GBFSFeed list option"

datatype responseBody =
    NoBody
  | ErrorBody string
  | ResultsBody "feedResult list"

record response =
  status :: nat
  body :: responseBody

text \<open>
  \<^verbatim>\<open>Promise.all(feeds.map(fetchSingleFeed))\<close>: every item is fetched, the network's
  answer to the \<open>i\<close>-th one being \<open>net i\<close>, and the results come in the order of the
  items.  No item's promise rejects, so the joint promise resolves when all have resolved
  and stays pending (\<open>None\<close>) as soon as one never settles.
\<close>

definition fetchAll :: "(nat \<Rightarrow> fetchOutcome) \<Rightarrow> GBFSFeed list \<Rightarrow> feedResult list option" where
  "fetchAll net feeds =
     those (map (\<lambda>(i, feed). fetchSingleFeed (net i) feed) (enumerate 0 feeds))"

text \<open>
  The handler.  \<open>now\<close> is \<^verbatim>\<open>Date.now()\<close> at the cache lookup, \<open>later\<close> the one at
  \<^verbatim>\<open>cache.set\<close>; \<open>bodyFeeds\<close> is \<open>None\<close> when the body has no \<^verbatim>\<open>feeds\<close> array.
  The first component of the result is the response, \<open>None\<close> when the handler never
  answers because \<^verbatim>\<open>await Promise.all\<close> never resumes; the cache is then as it was.
  The items are of the declared type \<^verbatim>\<open>GBFSFeed\<close>; on them nothing inside the
  \<^verbatim>\<open>try\<close> block throws (\<^verbatim>\<open>fetchSingleFeed\<close> catches what a fetch throws), so the
  \<^verbatim>\<open>catch\<close> branch answering 500 is never taken.
\<close>

definition fetchAndStore ::
  "feedCache \<Rightarrow> int \<Rightarrow> (nat \<Rightarrow> fetchOutcome) \<Rightarrow> GBFSFeed list \<Rightarrow> response option \<times> feedCache" where
  "fetchAndStore cache later net feeds =
     (case fetchAll net feeds of
        None \<Rightarrow> (None, cache)
      | Some results \<Rightarrow>
          (Some \<lparr>status = 200, body = ResultsBody results\<rparr>,
           cache(cacheKey feeds \<mapsto> \<lparr>cached = results, timestamp = later\<rparr>)))"

definition handler ::
  "feedCache \<Rightarrow> int \<Rightarrow> int \<Rightarrow> (nat \<Rightarrow> fetchOutcome) \<Rightarrow> request \<Rightarrow> response option \<times> feedCache" where
  "handler cache now later net req =
     (if httpMethod req = ''OPTIONS'' then (Some \<lparr>status = 200, body = NoBody\<rparr>, cache)
      else if httpMethod req \<noteq> ''POST'' then
        (Some \<lparr>status = 405, body = ErrorBody ''Method not allowed''\<rparr>, cache)
      else
        (case bodyFeeds req of
           None \<Rightarrow> (Some \<lparr>status = 400, body = ErrorBody ''feeds array is required''\<rparr>, cache)
         | Some feeds \<Rightarrow>
             (case cache (cacheKey feeds) of
                Some entry \<Rightarrow>
                  if now - timestamp entry < CACHE_TTL then
                    (Some \<lparr>status = 200, body = ResultsBody (cached entry)\<rparr>, cache)
                  else fetchAndStore cache later net feeds
              | None \<Rightarrow> fetchAndStore cache later net feeds)))"

section \<open>Catalog credentials and paging (\<^verbatim>\<open>api/feeds.js\<close>)\<close>

text \<open>
  A \<^verbatim>\<open>Date\<close>: a time value in milliseconds since the epoch, at most 8.64e15 in
  magnitude, or the Invalid Date.  \<open>newDate\<close> is \<^verbatim>\<open>new Date(t)\<close>, its argument
  \<open>None\<close> when \<open>t\<close> is \<^verbatim>\<open>NaN\<close>; \<open>getTime\<close> gives \<^verbatim>\<open>NaN\<close> on the Invalid Date.
  Sums and products of integers are exact below \<open>2^53\<close>; one that is not exact lies
  beyond the range of a \<^verbatim>\<open>Date\<close> anyway (for a clock of the present era), so taking
  them exact gives the same \<^verbatim>\<open>Date\<close>.
\<close>

datatype jsDate = Date int | InvalidDate

definition maxTimeValue :: int where
  "maxTimeValue = 8640000000000000"

definition newDate :: "int option \<Rightarrow> jsDate" where
  "newDate t =
     (case t of
        None \<Rightarrow> InvalidDate
      | Some ms \<Rightarrow> if \<bar>ms\<bar> \<le> maxTimeValue then Date ms else InvalidDate)"

fun getTime :: "jsDate \<Rightarrow> int option" where
  "getTime (Date ms) = Some ms"
| "getTime InvalidDate = None"

record tokenManager =
  accessToken :: "json option"
  tokenExpiresAt :: "jsDate option"

text \<open>An HTTP exchange: the \<^verbatim>\<open>fetch\<close> rejects, or answers with a status and a body
  that is JSON (\<open>Some\<close>) or not (\<open>None\<close>).\<close>

datatype httpResponse =
    FetchRejected string
  | Http nat "json option"

text \<open>The requests the module issues, for the record of what went over the wire.\<close>

datatype apiCall =
    TokenPost string
  | FeedsGet string nat nat "json option"

text \<open>
  The world outside: the configured refresh credential
  (\<^verbatim>\<open>process.env.MOBILITY_DATABASE_REFRESH_TOKEN\<close>), the token endpoint as a function
  of the posted credential, and the catalog endpoint as a function of data type, limit,
  offset and bearer token.
\<close>

record upstreamApi =
  envRefreshToken :: "string option"
  tokensEndpoint :: "string \<Rightarrow> httpResponse"
  feedsEndpoint :: "string \<Rightarrow> nat \<Rightarrow> nat \<Rightarrow> json option \<Rightarrow> httpResponse"

definition bufferTime :: int where
  "bufferTime = 5 * 60 * 1000"

text \<open>
  \<open>now\<close> is the time value of \<^verbatim>\<open>new Date()\<close>, the clock.  The comparison
  \<^verbatim>\<open>new Date() >= new Date(expiresAt.getTime() - bufferTime)\<close> compares the two time
  values and is false when the right one is the Invalid Date.
\<close>

definition isTokenExpired :: "tokenManager \<Rightarrow> int \<Rightarrow> bool" where
  "isTokenExpired tm now =
     (case tokenExpiresAt tm of
        None \<Rightarrow> True
      | Some expiresAt \<Rightarrow>
          if \<not> truthy (accessToken tm) then True
          else (case newDate (map_option (\<lambda>ms. ms - bufferTime) (getTime expiresAt)) of
                  Date threshold \<Rightarrow> now \<ge> threshold
                | InvalidDate \<Rightarrow> False))"

text \<open>
  \<^verbatim>\<open>tokenData.expires_in || 3600\<close> as the factor of \<^verbatim>\<open>* 1000\<close>: a number, or
  \<^verbatim>\<open>true\<close> (which multiplies as 1).
\<close>

definition expiresInSeconds :: "json \<Rightarrow> error + int" where
  "expiresInSeconds tokenData =
     (case orElse (field tokenData ''expires_in'') (Some (JNum 3600)) of
        Some (JNum n) \<Rightarrow> Inr n
      | Some (JBool b) \<Rightarrow> Inr 1
      | _ \<Rightarrow> Inl OutsideModel)"

definition refreshAccessToken ::
  "upstreamApi \<Rightarrow> int \<Rightarrow> tokenManager \<Rightarrow> (error + json option) \<times> tokenManager \<times> apiCall list" where
  "refreshAccessToken api now tm =
     (case envRefreshToken api of
        None \<Rightarrow> (Inl (Error ''MOBILITY_DATABASE_REFRESH_TOKEN not configured''), tm, [])
      | Some refreshToken \<Rightarrow>
          if refreshToken = [] then
            (Inl (Error ''MOBILITY_DATABASE_REFRESH_TOKEN not configured''), tm, [])
          else
            (case tokensEndpoint api refreshToken of
               FetchRejected msg \<Rightarrow> (Inl (FetchFailed msg), tm, [TokenPost refreshToken])
             | Http st payload \<Rightarrow>
                 if \<not> responseOk st then
                   (Inl (Error (''Failed to refresh access token: '' @ decimal st)), tm,
                    [TokenPost refreshToken])
                 else
                   (case payload of
                      None \<Rightarrow> (Inl SyntaxError, tm, [TokenPost refreshToken])
                    | Some tokenData \<Rightarrow>
                        (case getProp (Some tokenData) ''access_token'' of
                           Inl e \<Rightarrow> (Inl e, tm, [TokenPost refreshToken])
                         | Inr tok \<Rightarrow>
                             (case expiresInSeconds tokenData of
                                Inl e \<Rightarrow>
                                  (Inl e, tm\<lparr>accessToken := tok\<rparr>, [TokenPost refreshToken])
                              | Inr expiresIn \<Rightarrow>
                                  (Inr tok,
                                   tm\<lparr>accessToken := tok,
                                      tokenExpiresAt :=
                                        Some (newDate (Some (now + expiresIn * 1000)))\<rparr>,
                                   [TokenPost refreshToken]))))))"

text \<open>
  \<open>now\<close> is the clock when \<^verbatim>\<open>isTokenExpired\<close> reads it, \<open>later\<close> the clock when the
  refreshed expiry is computed.
\<close>

definition getAccessToken ::
  "upstreamApi \<Rightarrow> int \<Rightarrow> int \<Rightarrow> tokenManager \<Rightarrow> (error + json option) \<times> tokenManager \<times> apiCall list" where
  "getAccessToken api now later tm =
     (if isTokenExpired tm now then refreshAccessToken api later tm
      else (Inr (accessToken tm), tm, []))"

definition pageLimit :: nat where
  "pageLimit = 1000"

text \<open>
  \<^verbatim>\<open>Array.isArray(data) ? data : data.results || data.feeds || data.data || []\<close>, and
  then what \<^verbatim>\<open>pageFeeds.length\<close> and \<^verbatim>\<open>push(...pageFeeds)\<close> make of it: the
  elements of an array, the characters of a string; an object whose \<^verbatim>\<open>length\<close> is 0
  ends the loop like an empty page; any other truthy value cannot be spread.
\<close>

definition pageFeedsOf :: "json \<Rightarrow> error + json list" where
  "pageFeedsOf d =
     (case d of
        JArr xs \<Rightarrow> Inr xs
      | JNull \<Rightarrow> Inl TypeError
      | _ \<Rightarrow>
        (case orElse (field d ''results'')
                (orElse (field d ''feeds'') (orElse (field d ''data'') (Some (JArr [])))) of
           Some (JArr xs) \<Rightarrow> Inr xs
         | Some (JStr s) \<Rightarrow> Inr (map (\<lambda>c. JStr [c]) s)
         | Some (JObj kvs) \<Rightarrow>
             if field (JObj kvs) ''length'' = Some (JNum 0) then Inr [] else Inl TypeError
         | _ \<Rightarrow> Inl TypeError))"

text \<open>
  The \<^verbatim>\<open>while (true)\<close> loop.  It need not end (an upstream that answers every offset
  with a full page keeps it running), so not returning is the value \<open>None\<close>.  The
  second component of a result is the list of requests issued, in order.
\<close>

partial_function (option) fetchPages ::
  "upstreamApi \<Rightarrow> string \<Rightarrow> json option \<Rightarrow> nat \<Rightarrow> json list \<Rightarrow> apiCall list
     \<Rightarrow> ((error + json list) \<times> apiCall list) option" where
  "fetchPages api dataType token offset allFeeds calls =
     (let calls' = calls @ [FeedsGet dataType pageLimit offset token] in
      case feedsEndpoint api dataType pageLimit offset token of
        FetchRejected msg \<Rightarrow> Some (Inl (FetchFailed msg), calls')
      | Http st payload \<Rightarrow>
          if \<not> responseOk st then
            Some (Inl (Error (''Failed to fetch feeds: '' @ decimal st)), calls')
          else
            (case payload of
               None \<Rightarrow> Some (Inl SyntaxError, calls')
             | Some d \<Rightarrow>
                 (case pageFeedsOf d of
                    Inl e \<Rightarrow> Some (Inl e, calls')
                  | Inr pageFeeds \<Rightarrow>
                      if length pageFeeds = 0 then Some (Inr allFeeds, calls')
                      else if length pageFeeds < pageLimit then
                        Some (Inr (allFeeds @ pageFeeds), calls')
                      else fetchPages api dataType token (offset + pageLimit)
                             (allFeeds @ pageFeeds) calls')))"

definition fetchAllGbfsFeeds ::
  "upstreamApi \<Rightarrow> int \<Rightarrow> int \<Rightarrow> tokenManager \<Rightarrow> string
     \<Rightarrow> ((error + json list) \<times> tokenManager \<times> apiCall list) option" where
  "fetchAllGbfsFeeds api now later tm dataType =
     (case getAccessToken api now later tm of
        (Inl e, tm', calls) \<Rightarrow> Some (Inl e, tm', calls)
      | (Inr token, tm', calls) \<Rightarrow>
          (case fetchPages api dataType token 0 [] calls of
             None \<Rightarrow> None
           | Some (r, calls') \<Rightarrow> Some (r, tm', calls')))"

section \<open>Vocabulary of the statements\<close>

text \<open>
  A vehicle type the scooter test can read: not \<^verbatim>\<open>null\<close>, and its
  \<^verbatim>\<open>form_factor\<close> absent, falsy, a string or an array.
\<close>

definition readableVehicleType :: "json \<Rightarrow> bool" where
  "readableVehicleType vt =
     (vt \<noteq> JNull \<and>
      (case field vt ''form_factor'' of
         None \<Rightarrow> True
       | Some (JStr s) \<Rightarrow> True
       | Some (JArr xs) \<Rightarrow> True
       | Some ff \<Rightarrow> \<not> truthy (Some ff)))"

text \<open>
  A form factor that matches scooter: a string containing \<^verbatim>\<open>scooter\<close>, or an array
  with the element \<^verbatim>\<open>"scooter"\<close>.
\<close>

definition formFactorMatchesScooter :: "json \<Rightarrow> bool" where
  "formFactorMatchesScooter vt =
     (case field vt ''form_factor'' of
        Some (JStr s) \<Rightarrow> sublist ''scooter'' s
      | Some (JArr xs) \<Rightarrow> JStr ''scooter'' \<in> set xs
      | _ \<Rightarrow> False)"

text \<open>Both flags of a vehicle entry are explicitly \<^verbatim>\<open>false\<close>.\<close>

definition bothFlagsFalse :: "json \<Rightarrow> bool" where
  "bothFlagsFalse v =
     (field v ''is_disabled'' = Some (JBool False) \<and> field v ''is_reserved'' = Some (JBool False))"

text \<open>
  A fetch that settles: it rejects, or is aborted by the timeout, or answers with a
  status that is not ok, or answers ok with a body whose reading completes.  The one that
  does not is an ok response whose body stalls.
\<close>

definition settles :: "fetchOutcome \<Rightarrow> bool" where
  "settles out = (case out of Stalls st statusText \<Rightarrow> \<not> (200 \<le> st \<and> st \<le> 299) | _ \<Rightarrow> True)"

text \<open>
  The request is not answered from the cache: under the sorted list of its URLs there
  is no entry, or one that is 60 seconds old or older.
\<close>

definition cacheMiss :: "feedCache \<Rightarrow> int \<Rightarrow> GBFSFeed list \<Rightarrow> bool" where
  "cacheMiss cache now feeds =
     (case cache (sort (map url feeds)) of
        None \<Rightarrow> True
      | Some entry \<Rightarrow> \<not> now - timestamp entry < 60 * 1000)"

text \<open>
  Every cached result list is as long as the URL list it is stored under.  The empty
  cache of a fresh process has the property and the handler keeps it.
\<close>

definition cacheSized :: "feedCache \<Rightarrow> bool" where
  "cacheSized cache = (\<forall>k entry. cache k = Some entry \<longrightarrow> length (cached entry) = length k)"

text \<open>A POST request carrying a \<^verbatim>\<open>feeds\<close> array.\<close>

definition postFeeds :: "GBFSFeed list \<Rightarrow> request" where
  "postFeeds feeds = \<lparr>httpMethod = ''POST'', bodyFeeds = Some feeds\<rparr>"

text \<open>
  Networks for the examples: every fetch answers 200 with \<^verbatim>\<open>{}\<close>; the same, except
  that the \<open>k\<close>-th fetch gets no response before the timeout; the same, except that the
  \<open>k\<close>-th fetch gets an ok response whose body stalls.
\<close>

definition okNet :: "nat \<Rightarrow> fetchOutcome" where
  "okNet i = Responds 200 ''OK'' (Inr (JObj []))"

definition hangAt :: "nat \<Rightarrow> nat \<Rightarrow> fetchOutcome" where
  "hangAt k i = (if i = k then TimesOut else okNet i)"

definition stallAt :: "nat \<Rightarrow> nat \<Rightarrow> fetchOutcome" where
  "stallAt k i = (if i = k then Stalls 200 ''OK'' else okNet i)"

text \<open>
  The condition of the credential manager in the words of its contract: no stored token,
  or the clock at or past the stored expiry less five minutes.  The contract speaks of an
  expiry that is a time; the Invalid Date is at or past nothing.
\<close>

definition refreshDue :: "tokenManager \<Rightarrow> int \<Rightarrow> bool" where
  "refreshDue tm now =
     (\<not> truthy (accessToken tm) \<or>
      (case tokenExpiresAt tm of
         None \<Rightarrow> True
       | Some (Date expiry) \<Rightarrow> now \<ge> expiry - 5 * 60 * 1000
       | Some InvalidDate \<Rightarrow> False))"

text \<open>
  An upstream for the examples: the token endpoint grants the token \<^verbatim>\<open>fresh\<close> for an
  hour; the catalog has two pages of 1000 records and a third of 400, and fails on any
  other offset.
\<close>

definition examplePage :: "nat \<Rightarrow> json list" where
  "examplePage i = (if i < 2 then replicate 1000 (JNum (int i)) else replicate 400 (JNum (int i)))"

definition exampleApi :: upstreamApi where
  "exampleApi =
     \<lparr>envRefreshToken = Some ''refresh'',
      tokensEndpoint = (\<lambda>credential.
        Http 200 (Some (JObj [(''access_token'', JStr ''fresh''), (''expires_in'', JNum 3600)]))),
      feedsEndpoint = (\<lambda>dataType limit offset token.
        if offset mod 1000 = 0 \<and> offset div 1000 \<le> 2
          then Http 200 (Some (JArr (examplePage (offset div 1000))))
        else Http 500 None)\<rparr>"

text \<open>
  The discovery document in the words of the parser's contract.  Its content is the
  document with one envelope layer taken off: the \<^verbatim>\<open>data\<close> member, when the document
  has a truthy one and no truthy top-level \<^verbatim>\<open>feeds\<close>.  A feed block of the content is
  a place where the parser looks for feeds: a language block (a member of the content
  that is an object or array) or the content itself, with its \<^verbatim>\<open>feeds\<close> array.
\<close>

definition envelopeContent :: "json \<Rightarrow> json" where
  "envelopeContent doc =
     (case field doc ''data'' of
        Some d \<Rightarrow> if truthy (Some d) \<and> \<not> truthy (field doc ''feeds'') then d else doc
      | None \<Rightarrow> doc)"

definition feedBlock :: "json \<Rightarrow> json \<Rightarrow> json list \<Rightarrow> bool" where
  "feedBlock content b fs =
     ((b = content \<or> (\<exists>k. field content k = Some b \<and> isObjectValue (Some b))) \<and>
      field b ''feeds'' = Some (JArr fs))"

section \<open>Classification: station preference, scooter override, monotonicity\<close>

lemma scooterOverride_None: "scooterOverride None = Inr False"
  by (simp add: scooterOverride_def)

lemma classify_without_scooters:
  "scooterOverride V = Inr False \<Longrightarrow>
   classifyOperatorType F V =
     Inr (if F = [] then unknown
          else if ''station_information'' \<in> fst ` set F \<and> ''station_status'' \<in> fst ` set F
            then station_based
          else if ''vehicle_status'' \<in> fst ` set F \<or> ''free_bike_status'' \<in> fst ` set F
            then free_floating
          else unknown)"
  by (auto simp: classifyOperatorType_def STATION_FEED_NAMES_def VEHICLE_FEED_NAMES_def Let_def)

lemma classify_with_scooters:
  "scooterOverride V = Inr True \<Longrightarrow>
   classifyOperatorType F V = Inr (if F = [] then unknown else free_floating)"
  by (simp add: classifyOperatorType_def)

lemma classify_throws:
  "scooterOverride V = Inl e \<Longrightarrow>
   classifyOperatorType F V = (if F = [] then Inr unknown else Inl e)"
  by (simp add: classifyOperatorType_def)

lemma classify_empty: "classifyOperatorType [] V = Inr unknown"
  by (simp add: classifyOperatorType_def)

lemma classify_same:
  "scooterOverride V = Inr False \<Longrightarrow> classifyOperatorType F V = classifyOperatorType F None"
  by (simp add: classify_without_scooters scooterOverride_None)

lemma classify_None_total: "\<exists>v. classifyOperatorType F None = Inr v"
  by (simp add: classify_without_scooters scooterOverride_None)

lemma formFactorHasScooter_readable:
  "readableVehicleType vt \<Longrightarrow> formFactorHasScooter vt = Inr (formFactorMatchesScooter vt)"
  by (cases vt)
     (auto simp: readableVehicleType_def formFactorHasScooter_def formFactorMatchesScooter_def
           split: option.splits json.splits)

lemma someE_readable:
  "\<forall>x \<in> set xs. readableVehicleType x \<Longrightarrow>
   someE formFactorHasScooter xs = Inr (\<exists>x \<in> set xs. formFactorMatchesScooter x)"
  by (induction xs) (auto simp: formFactorHasScooter_readable)

lemma field_truthy: "field V k = Some x \<Longrightarrow> truthy (Some V) \<and> V \<noteq> JNull"
  by (cases V) (auto simp: field_def)

lemma scooterOverride_readable:
  assumes "field V ''vehicle_types'' = Some (JArr vts)"
    and "\<forall>vt \<in> set vts. readableVehicleType vt"
  shows "scooterOverride (Some V) = Inr (\<exists>vt \<in> set vts. formFactorMatchesScooter vt)"
proof -
  from assms(1) have t: "truthy (Some V)" and n: "V \<noteq> JNull"
    using field_truthy by blast+
  from n assms(1) have g: "getProp (Some V) ''vehicle_types'' = Inr (Some (JArr vts))"
    by (cases V) simp_all
  show ?thesis
    using t g someE_readable [OF assms(2)] by (simp add: scooterOverride_def)
qed

lemma classify_monotone:
  assumes v: "classifyOperatorType F None = Inr v"
    and w: "classifyOperatorType F (Some V) = Inr w"
  shows "w = v \<or> w = free_floating"
proof (cases "F = []")
  case True
  with v w show ?thesis by (simp add: classify_empty)
next
  case False
  show ?thesis
  proof (cases "scooterOverride (Some V)")
    case (Inl e)
    with w False show ?thesis by (simp add: classify_throws)
  next
    case (Inr b)
    show ?thesis
    proof (cases b)
      case True
      with Inr w False show ?thesis by (simp add: classify_with_scooters)
    next
      case False
      with Inr have "classifyOperatorType F (Some V) = classifyOperatorType F None"
        by (simp add: classify_same)
      with v w show ?thesis by simp
    qed
  qed
qed

lemma scooterOverride_no_scooter:
  assumes "\<forall>vts. field v ''vehicle_types'' = Some (JArr vts) \<longrightarrow>
             (\<forall>vt \<in> set vts. readableVehicleType vt \<and> \<not> formFactorMatchesScooter vt)"
  shows "scooterOverride (Some v) = Inr False"
proof (cases "truthy (Some v)")
  case False
  then show ?thesis by (simp add: scooterOverride_def)
next
  case True
  then have g: "getProp (Some v) ''vehicle_types'' = Inr (field v ''vehicle_types'')"
    by (cases v) simp_all
  show ?thesis
  proof (cases "field v ''vehicle_types''")
    case None
    with True g show ?thesis by (simp add: scooterOverride_def)
  next
    case (Some x)
    show ?thesis
    proof (cases x)
      case (JArr vts)
      with Some assms have "\<forall>vt \<in> set vts. readableVehicleType vt"
        and "\<not> (\<exists>vt \<in> set vts. formFactorMatchesScooter vt)" by auto
      with True g Some JArr someE_readable [of vts] show ?thesis
        by (simp add: scooterOverride_def)
    qed (use True g Some in \<open>simp_all add: scooterOverride_def\<close>)
  qed
qed

text \<open>
  Claim C1, as stated, fails: evidence that holds no scooter but an entry the scooter
  test cannot read (a \<^verbatim>\<open>null\<close> entry, a numeric form factor) makes the classification
  throw instead of returning \<open>station_based\<close>.
\<close>

theorem prefer_stations_counterexample:
  "classifyOperatorType [(''station_information'', ''i''), (''station_status'', ''s'')]
     (Some (JObj [(''vehicle_types'', JArr [JNull])])) = Inl TypeError \<and>
   classifyOperatorType [(''station_information'', ''i''), (''station_status'', ''s'')]
     (Some (JObj [(''vehicle_types'', JArr [JObj [(''form_factor'', JNum 5)]])])) = Inl TypeError"
  by (simp add: classifyOperatorType_def scooterOverride_def formFactorHasScooter_def field_def)

text \<open>
  Claim C1, amended.  A feed map that has both \<^verbatim>\<open>station_information\<close> and
  \<^verbatim>\<open>station_status\<close> is classified \<open>station_based\<close>, whatever other feeds
  (\<^verbatim>\<open>vehicle_status\<close>, \<^verbatim>\<open>free_bike_status\<close>) it holds, when no vehicle-type evidence
  is supplied, and when the evidence supplied has no \<^verbatim>\<open>vehicle_types\<close> array or one
  whose entries are all readable and none of which has a form factor matching scooter.
\<close>

theorem prefer_stations:
  assumes "''station_information'' \<in> fst ` set F" and "''station_status'' \<in> fst ` set F"
    and "V = None \<or>
         (\<exists>v. V = Some v \<and>
              (\<forall>vts. field v ''vehicle_types'' = Some (JArr vts) \<longrightarrow>
                 (\<forall>vt \<in> set vts. readableVehicleType vt \<and> \<not> formFactorMatchesScooter vt)))"
  shows "classifyOperatorType F V = Inr station_based"
proof -
  from assms(1) have "F \<noteq> []" by auto
  moreover from assms(3) have "scooterOverride V = Inr False"
    using scooterOverride_None scooterOverride_no_scooter by blast
  ultimately show ?thesis using assms(1,2) by (simp add: classify_without_scooters)
qed

theorem prefer_stations_witness:
  "classifyOperatorType [(''station_information'', ''i''), (''station_status'', ''s''),
        (''vehicle_status'', ''v''), (''free_bike_status'', ''f'')] None = Inr station_based \<and>
   classifyOperatorType [(''station_information'', ''i''), (''station_status'', ''s''),
        (''vehicle_status'', ''v''), (''free_bike_status'', ''f'')]
     (Some (JObj [(''vehicle_types'',
        JArr [JObj [(''form_factor'', JStr ''bicycle'')], JObj [(''name'', JStr ''cargo'')]])]))
     = Inr station_based"
proof -
  let ?F = "[(''station_information'', ''i''), (''station_status'', ''s''),
        (''vehicle_status'', ''v''), (''free_bike_status'', ''f'')]"
  let ?v = "JObj [(''vehicle_types'',
        JArr [JObj [(''form_factor'', JStr ''bicycle'')], JObj [(''name'', JStr ''cargo'')]])]"
  have i: "''station_information'' \<in> fst ` set ?F" by simp
  have s: "''station_status'' \<in> fst ` set ?F" by simp
  have n: "(None :: json option) = None \<or>
         (\<exists>v. None = Some v \<and>
              (\<forall>vts. field v ''vehicle_types'' = Some (JArr vts) \<longrightarrow>
                 (\<forall>vt \<in> set vts. readableVehicleType vt \<and> \<not> formFactorMatchesScooter vt)))"
    by simp
  have e: "Some ?v = None \<or>
         (\<exists>v. Some ?v = Some v \<and>
              (\<forall>vts. field v ''vehicle_types'' = Some (JArr vts) \<longrightarrow>
                 (\<forall>vt \<in> set vts. readableVehicleType vt \<and> \<not> formFactorMatchesScooter vt)))"
    by (simp add: field_def readableVehicleType_def formFactorMatchesScooter_def
        sublist_Cons_right)
  from prefer_stations [OF i s n] prefer_stations [OF i s e] show ?thesis by simp
qed

text \<open>
  Claim C2, as stated, fails: the empty feed map is answered \<open>unknown\<close> before the
  scooter test is reached, and a \<^verbatim>\<open>null\<close> entry ahead of the scooter entry makes the
  test throw.
\<close>

theorem scooter_override_counterexample:
  "classifyOperatorType []
     (Some (JObj [(''vehicle_types'', JArr [JObj [(''form_factor'', JStr ''scooter'')]])]))
     = Inr unknown \<and>
   classifyOperatorType [(''station_status'', ''s'')]
     (Some (JObj [(''vehicle_types'', JArr [JNull, JObj [(''form_factor'', JStr ''scooter'')]])]))
     = Inl TypeError"
  by (simp add: classifyOperatorType_def scooterOverride_def formFactorHasScooter_def field_def)

text \<open>
  Claim C2, amended.  For every feed map that is not empty, and every vehicle-type
  evidence whose \<^verbatim>\<open>vehicle_types\<close> array holds readable entries of which one has a form
  factor matching scooter, the verdict is \<open>free_floating\<close>, whether or not the station
  feeds are present.
\<close>

theorem scooter_override:
  assumes "F \<noteq> []"
    and "field V ''vehicle_types'' = Some (JArr vts)"
    and "\<forall>vt \<in> set vts. readableVehicleType vt"
    and "\<exists>vt \<in> set vts. formFactorMatchesScooter vt"
  shows "classifyOperatorType F (Some V) = Inr free_floating"
  using assms scooterOverride_readable [OF assms(2,3)]
  by (simp add: classify_with_scooters)

theorem scooter_override_witness:
  "classifyOperatorType [(''station_information'', ''i''), (''station_status'', ''s'')]
     (Some (JObj [(''vehicle_types'',
        JArr [JObj [(''form_factor'', JStr ''bicycle'')],
              JObj [(''form_factor'', JStr ''scooter_standing'')]])]))
     = Inr free_floating"
proof -
  let ?vts = "[JObj [(''form_factor'', JStr ''bicycle'')],
               JObj [(''form_factor'', JStr ''scooter_standing'')]]"
  have f: "[(''station_information'', ''i''), (''station_status'', ''s'')] \<noteq> []" by simp
  have g: "field (JObj [(''vehicle_types'', JArr ?vts)]) ''vehicle_types'' = Some (JArr ?vts)"
    by (simp add: field_def)
  have r: "\<forall>vt \<in> set ?vts. readableVehicleType vt"
    by (simp add: readableVehicleType_def field_def)
  have m: "\<exists>vt \<in> set ?vts. formFactorMatchesScooter vt"
    by (simp add: formFactorMatchesScooter_def field_def sublist_Cons_right)
  from scooter_override [OF f g r m] show ?thesis .
qed

text \<open>
  Claim C3.  Classification without evidence always yields a verdict; whenever the
  classification of the same feed map with evidence yields a different verdict, that
  verdict is \<open>free_floating\<close>.  So the reclassification step of the pipeline leaves the
  stored verdict as it was or makes it \<open>free_floating\<close>; it never turns a verdict into
  \<open>station_based\<close>.
\<close>

theorem reclassification_monotone:
  "\<exists>v. classifyOperatorType F None = Inr v \<and>
       (\<forall>w. classifyOperatorType F (Some V) = Inr w \<longrightarrow> w \<noteq> v \<longrightarrow> w = free_floating) \<and>
       (\<forall>d'. reclassify \<lparr>operatorType = Some v, feedsFromDiscovery = Some F,
                          vehicleTypesRaw = Some V\<rparr> = Inr d' \<longrightarrow>
             operatorType d' = Some v \<or> operatorType d' = Some free_floating)"
proof -
  obtain v where v: "classifyOperatorType F None = Inr v"
    using classify_None_total by blast
  have a: "\<forall>w. classifyOperatorType F (Some V) = Inr w \<longrightarrow> w \<noteq> v \<longrightarrow> w = free_floating"
    using classify_monotone [OF v] by blast
  have b: "operatorType d' = Some v \<or> operatorType d' = Some free_floating"
    if r: "reclassify \<lparr>operatorType = Some v, feedsFromDiscovery = Some F,
                       vehicleTypesRaw = Some V\<rparr> = Inr d'" for d'
  proof (cases "classifyOperatorType F (Some V)")
    case (Inl e)
    with r show ?thesis by (auto simp: reclassify_def split: if_splits)
  next
    case (Inr w)
    with r classify_monotone [OF v Inr] show ?thesis
      by (auto simp: reclassify_def split: if_splits)
  qed
  from v a b show ?thesis by blast
qed

theorem reclassification_monotone_witness:
  "classifyOperatorType [(''station_information'', ''i''), (''station_status'', ''s'')] None
     = Inr station_based \<and>
   classifyOperatorType [(''station_information'', ''i''), (''station_status'', ''s'')]
     (Some (JObj [(''vehicle_types'', JArr [JObj [(''form_factor'', JStr ''scooter'')]])]))
     = Inr free_floating \<and>
   free_floating \<noteq> station_based"
  using reclassification_monotone [of "[(''station_information'', ''i''), (''station_status'', ''s'')]"
     "JObj [(''vehicle_types'', JArr [JObj [(''form_factor'', JStr ''scooter'')]])]"]
  by (simp add: classifyOperatorType_def scooterOverride_def formFactorHasScooter_def field_def
      STATION_FEED_NAMES_def VEHICLE_FEED_NAMES_def)

section \<open>Status feed normalizers: the worked examples and the counting rule\<close>

lemmas station_defs =
  parseStationStatusFeed_def field_def stationStep_def bikesAtStation_def arrayField_def
  addStationId_def numberOr0_def

text \<open>
  Claim C4, as stated, fails: the two stations of the example carry no
  \<^verbatim>\<open>station_id\<close>, so the set of identifiers holds the single value
  \<^verbatim>\<open>undefined\<close> and the station count is not 2.
\<close>

theorem station_example_counterexample:
  "parseStationStatusFeed
     \<lparr>data = Some (JObj [(''stations'', JArr
         [JObj [(''num_bikes_available'', JNum 3), (''num_docks_available'', JNum 5)],
          JObj [(''num_bikes_available'', JNum 2), (''num_bikes_disabled'', JNum 1),
                (''num_docks_available'', JNum 4)]])]),
      last_updated = None, ttl = None\<rparr>
   \<noteq> Inr (Some \<lparr>bikesAvailable = 5, bikesTotal = 6, docksAvailable = 9, stationCount = 2,
                  parseError = None\<rparr>)"
  by (simp add: station_defs)

text \<open>
  Claim C4, amended.  The station list of the example yields available 5, total 6,
  docks 9 and station count 1, the count being that of the distinct \<^verbatim>\<open>station_id\<close>
  values; the same list with the identifiers \<^verbatim>\<open>a\<close> and \<^verbatim>\<open>b\<close> on its two stations
  yields available 5, total 6, docks 9 and station count 2.
\<close>

theorem station_example:
  "parseStationStatusFeed
     \<lparr>data = Some (JObj [(''stations'', JArr
         [JObj [(''num_bikes_available'', JNum 3), (''num_docks_available'', JNum 5)],
          JObj [(''num_bikes_available'', JNum 2), (''num_bikes_disabled'', JNum 1),
                (''num_docks_available'', JNum 4)]])]),
      last_updated = None, ttl = None\<rparr>
   = Inr (Some \<lparr>bikesAvailable = 5, bikesTotal = 6, docksAvailable = 9, stationCount = 1,
                parseError = None\<rparr>) \<and>
   parseStationStatusFeed
     \<lparr>data = Some (JObj [(''stations'', JArr
         [JObj [(''station_id'', JStr ''a''), (''num_bikes_available'', JNum 3),
                (''num_docks_available'', JNum 5)],
          JObj [(''station_id'', JStr ''b''), (''num_bikes_available'', JNum 2),
                (''num_bikes_disabled'', JNum 1), (''num_docks_available'', JNum 4)]])]),
      last_updated = None, ttl = None\<rparr>
   = Inr (Some \<lparr>bikesAvailable = 5, bikesTotal = 6, docksAvailable = 9, stationCount = 2,
                parseError = None\<rparr>)"
  by (simp add: station_defs)

lemma isAvailableVehicle_nonnull:
  "v \<noteq> JNull \<Longrightarrow> isAvailableVehicle v = Inr (bothFlagsFalse v)"
  by (cases v) (auto simp: isAvailableVehicle_def bothFlagsFalse_def)

lemma filterE_nonnull:
  "JNull \<notin> set vs \<Longrightarrow> filterE isAvailableVehicle vs = Inr (filter bothFlagsFalse vs)"
  by (induction vs) (auto simp: isAvailableVehicle_nonnull)

lemma arrayField_Some: "arrayField d k = Some xs \<longleftrightarrow> field d k = Some (JArr xs)"
  by (auto simp: arrayField_def split: option.splits json.splits)

lemma arrayField_None: "arrayField d k = None \<longleftrightarrow> (\<forall>xs. field d k \<noteq> Some (JArr xs))"
  by (auto simp: arrayField_def split: option.splits json.splits)

lemma count_chosen:
  assumes "data pf = Some d"
    and "(case arrayField d ''vehicles'' of Some vs \<Rightarrow> Some vs | None \<Rightarrow> arrayField d ''bikes'') = Some vs"
    and "JNull \<notin> set vs"
  shows "countFreeFloatingVehicles pf =
           Inr (Some \<lparr>total = length vs, available = length (filter bothFlagsFalse vs)\<rparr>)"
proof -
  from assms(2) obtain k where "arrayField d k = Some vs" by (auto split: option.splits)
  then have "truthy (Some d)" using field_truthy by (auto simp: arrayField_Some)
  with assms show ?thesis
    by (simp add: countFreeFloatingVehicles_def filterE_nonnull)
qed

lemma count_none:
  assumes "data pf = Some d"
    and "arrayField d ''vehicles'' = None" and "arrayField d ''bikes'' = None"
  shows "countFreeFloatingVehicles pf = Inr None"
  using assms by (simp add: countFreeFloatingVehicles_def)

text \<open>
  Claim C5, as stated, fails: on a \<^verbatim>\<open>null\<close> entry of the vehicle array the flag test
  throws, so there is neither a total nor an available count.
\<close>

theorem free_floating_counterexample:
  "countFreeFloatingVehicles
     \<lparr>data = Some (JObj [(''vehicles'', JArr [JNull])]), last_updated = None, ttl = None\<rparr>
   = Inl TypeError"
  by (simp add: countFreeFloatingVehicles_def arrayField_def field_def isAvailableVehicle_def)

text \<open>
  Claim C5, amended.  The normalizer takes the \<^verbatim>\<open>vehicles\<close> array if there is one,
  else the \<^verbatim>\<open>bikes\<close> array; when the array taken has no \<^verbatim>\<open>null\<close> entry, the total
  is its length and the available count is the number of entries whose
  \<^verbatim>\<open>is_disabled\<close> and \<^verbatim>\<open>is_reserved\<close> are both explicitly \<^verbatim>\<open>false\<close>; when neither
  array is there (or there is no data) the result is \<^verbatim>\<open>null\<close>.
\<close>

theorem free_floating_counts:
  "(data pf = None \<longrightarrow> countFreeFloatingVehicles pf = Inr None) \<and>
   (data pf = Some d \<longrightarrow>
      (field d ''vehicles'' = Some (JArr vs) \<and> JNull \<notin> set vs \<longrightarrow>
         countFreeFloatingVehicles pf =
           Inr (Some \<lparr>total = length vs, available = length (filter bothFlagsFalse vs)\<rparr>)) \<and>
      ((\<forall>xs. field d ''vehicles'' \<noteq> Some (JArr xs)) \<and>
       field d ''bikes'' = Some (JArr bs) \<and> JNull \<notin> set bs \<longrightarrow>
         countFreeFloatingVehicles pf =
           Inr (Some \<lparr>total = length bs, available = length (filter bothFlagsFalse bs)\<rparr>)) \<and>
      ((\<forall>xs. field d ''vehicles'' \<noteq> Some (JArr xs)) \<and>
       (\<forall>xs. field d ''bikes'' \<noteq> Some (JArr xs)) \<longrightarrow>
         countFreeFloatingVehicles pf = Inr None))"
proof -
  have n: "data pf = None \<Longrightarrow> countFreeFloatingVehicles pf = Inr None"
    by (simp add: countFreeFloatingVehicles_def)
  have a: "countFreeFloatingVehicles pf =
           Inr (Some \<lparr>total = length vs, available = length (filter bothFlagsFalse vs)\<rparr>)"
    if "data pf = Some d" "field d ''vehicles'' = Some (JArr vs)" "JNull \<notin> set vs"
    using that count_chosen [of pf d vs] by (simp add: arrayField_Some [symmetric])
  have b: "countFreeFloatingVehicles pf =
           Inr (Some \<lparr>total = length bs, available = length (filter bothFlagsFalse bs)\<rparr>)"
    if "data pf = Some d" "\<forall>xs. field d ''vehicles'' \<noteq> Some (JArr xs)"
       "field d ''bikes'' = Some (JArr bs)" "JNull \<notin> set bs"
    using that count_chosen [of pf d bs]
    by (simp add: arrayField_Some [symmetric] arrayField_None [symmetric])
  have c: "countFreeFloatingVehicles pf = Inr None"
    if "data pf = Some d" "\<forall>xs. field d ''vehicles'' \<noteq> Some (JArr xs)"
       "\<forall>xs. field d ''bikes'' \<noteq> Some (JArr xs)"
    using that count_none [of pf d] by (simp add: arrayField_None [symmetric])
  from n a b c show ?thesis by blast
qed

theorem free_floating_counts_witness:
  "countFreeFloatingVehicles
     \<lparr>data = Some (JObj [(''vehicles'', JArr
        [JObj [(''is_disabled'', JBool False), (''is_reserved'', JBool False)],
         JObj [(''is_disabled'', JBool True), (''is_reserved'', JBool False)],
         JObj []])]), last_updated = None, ttl = None\<rparr>
   = Inr (Some \<lparr>total = 3, available = 1\<rparr>)"
  using free_floating_counts [of
     "\<lparr>data = Some (JObj [(''vehicles'', JArr
        [JObj [(''is_disabled'', JBool False), (''is_reserved'', JBool False)],
         JObj [(''is_disabled'', JBool True), (''is_reserved'', JBool False)],
         JObj []])]), last_updated = None, ttl = None\<rparr>"
     "JObj [(''vehicles'', JArr
        [JObj [(''is_disabled'', JBool False), (''is_reserved'', JBool False)],
         JObj [(''is_disabled'', JBool True), (''is_reserved'', JBool False)],
         JObj []])]"
     "[JObj [(''is_disabled'', JBool False), (''is_reserved'', JBool False)],
         JObj [(''is_disabled'', JBool True), (''is_reserved'', JBool False)],
         JObj []]"]
  by (simp add: field_def bothFlagsFalse_def)

section \<open>Feed fetch handler: one result per item, and the cache\<close>

lemma those_eq_Some: "those xs = Some ys \<longleftrightarrow> xs = map Some ys"
  by (induction xs arbitrary: ys) (auto split: option.splits)

lemma fetchSingleFeed_settles:
  "settles out \<Longrightarrow> \<exists>r. fetchSingleFeed out feed = Some r"
  by (cases out) (auto simp: settles_def responseOk_def split: sum.splits)

lemma fetchAll_Some:
  "fetchAll net feeds = Some rs \<longleftrightarrow>
     length rs = length feeds \<and>
     (\<forall>i < length feeds. fetchSingleFeed (net i) (feeds ! i) = Some (rs ! i))"
  by (auto simp: fetchAll_def those_eq_Some list_eq_iff_nth_eq nth_enumerate_eq)

lemma fetchAll_settles:
  assumes "\<forall>i < length feeds. settles (net i)"
  shows "\<exists>rs. fetchAll net feeds = Some rs"
proof -
  have "\<forall>i < length feeds. \<exists>r. fetchSingleFeed (net i) (feeds ! i) = Some r"
    using assms fetchSingleFeed_settles by blast
  then obtain f where f: "\<forall>i < length feeds. fetchSingleFeed (net i) (feeds ! i) = Some (f i)"
    by metis
  have "fetchAll net feeds = Some (map f [0..<length feeds])"
    using f by (simp add: fetchAll_Some)
  then show ?thesis ..
qed

lemma feed_name_fetchSingleFeed: "fetchSingleFeed out feed = Some r \<Longrightarrow> feed_name r = name feed"
  by (cases out) (auto simp: failedFeed_def split: sum.splits if_splits)

lemma fetchSingleFeed_TimesOut:
  "fetchSingleFeed TimesOut feed =
     Some \<lparr>feed_name = name feed, feed_data = JNull, feed_error = Some abortMessage\<rparr>"
  by (simp add: failedFeed_def messageOrUnknown_def abortMessage_def)

lemma cacheMiss_key: "cacheMiss cache now feeds \<longleftrightarrow>
   (case cache (cacheKey feeds) of None \<Rightarrow> True | Some entry \<Rightarrow> \<not> now - timestamp entry < CACHE_TTL)"
  by (auto simp: cacheMiss_def cacheKey_def CACHE_TTL_def split: option.splits)

lemma handler_miss:
  assumes "httpMethod req = ''POST''" and "bodyFeeds req = Some feeds"
    and "cacheMiss cache now feeds"
  shows "handler cache now later net req = fetchAndStore cache later net feeds"
  using assms by (auto simp: handler_def cacheMiss_key split: option.splits)

lemma handler_miss_settled:
  assumes "httpMethod req = ''POST''" and "bodyFeeds req = Some feeds"
    and "cacheMiss cache now feeds" and "fetchAll net feeds = Some rs"
  shows "handler cache now later net req =
           (Some \<lparr>status = 200, body = ResultsBody rs\<rparr>,
            cache(sort (map url feeds) \<mapsto> \<lparr>cached = rs, timestamp = later\<rparr>))"
  using assms(4) handler_miss [OF assms(1-3)] by (simp add: fetchAndStore_def cacheKey_def)

lemma handler_hit:
  assumes "httpMethod req = ''POST''" and "bodyFeeds req = Some feeds"
    and "cache (sort (map url feeds)) = Some entry" and "now - timestamp entry < 60 * 1000"
  shows "handler cache now later net req =
           (Some \<lparr>status = 200, body = ResultsBody (cached entry)\<rparr>, cache)"
  using assms by (simp add: handler_def cacheKey_def CACHE_TTL_def)

lemmas handler_eval =
  handler_def fetchAndStore_def postFeeds_def cacheKey_def fetchAll_def okNet_def
  responseOk_def CACHE_TTL_def

text \<open>
  Claim C6, as stated, fails: a request answered from the cache receives the results of
  the earlier request, labelled with that request's names; and when one item's response
  arrives and its body then stalls, the timeout no longer applies to it and the handler
  answers nothing at all.
\<close>

theorem fetch_many_counterexample:
  "fst (handler
          (snd (handler Map.empty 0 5 okNet (postFeeds [\<lparr>name = ''oslo'', url = ''https://x/gbfs.json''\<rparr>])))
          1000 1005 okNet (postFeeds [\<lparr>name = ''bergen'', url = ''https://x/gbfs.json''\<rparr>]))
   = Some \<lparr>status = 200,
           body = ResultsBody [\<lparr>feed_name = ''oslo'', feed_data = JObj [], feed_error = None\<rparr>]\<rparr> \<and>
   fst (handler Map.empty 0 5 (stallAt 1)
          (postFeeds [\<lparr>name = ''a'', url = ''u1''\<rparr>, \<lparr>name = ''b'', url = ''u2''\<rparr>,
                      \<lparr>name = ''c'', url = ''u3''\<rparr>]))
   = None"
  by (simp add: handler_eval stallAt_def)

text \<open>
  Claim C6, amended.  A request of \<open>N\<close> items that is not answered from the cache, and
  of which every fetch settles, receives exactly \<open>N\<close> results, the \<open>i\<close>-th carrying the
  \<open>i\<close>-th name; an item whose fetch is still without a response when its timeout fires is
  reported with data \<^verbatim>\<open>null\<close> and the abort message as its error, and the result of
  an item depends on no other item's outcome.  A request answered from the cache also
  receives \<open>N\<close> results (the cache holding result lists of the length of their key,
  which the handler maintains).
\<close>

theorem fetch_many_results:
  assumes post: "httpMethod req = ''POST''" and feeds: "bodyFeeds req = Some feeds"
  shows "(cacheMiss cache now feeds \<and> (\<forall>i < length feeds. settles (net i)) \<longrightarrow>
            (\<exists>rs. fst (handler cache now later net req)
                     = Some \<lparr>status = 200, body = ResultsBody rs\<rparr> \<and>
                  length rs = length feeds \<and>
                  (\<forall>i < length feeds.
                      feed_name (rs ! i) = name (feeds ! i) \<and>
                      (net i = TimesOut \<longrightarrow>
                         rs ! i = \<lparr>feed_name = name (feeds ! i), feed_data = JNull,
                                   feed_error = Some abortMessage\<rparr>) \<and>
                      (\<forall>net'. (\<forall>j < length feeds. settles (net' j)) \<and> net' i = net i \<longrightarrow>
                         (\<exists>rs'. fst (handler cache now later net' req)
                                   = Some \<lparr>status = 200, body = ResultsBody rs'\<rparr> \<and>
                                rs' ! i = rs ! i))))) \<and>
         (cacheSized cache \<and>
          (cacheMiss cache now feeds \<longrightarrow> (\<forall>i < length feeds. settles (net i))) \<longrightarrow>
            (\<exists>rs. fst (handler cache now later net req)
                     = Some \<lparr>status = 200, body = ResultsBody rs\<rparr> \<and>
                  length rs = length feeds) \<and>
            cacheSized (snd (handler cache now later net req)))"
proof (rule conjI; rule impI)
  assume a: "cacheMiss cache now feeds \<and> (\<forall>i < length feeds. settles (net i))"
  then have miss: "cacheMiss cache now feeds" and all: "\<forall>i < length feeds. settles (net i)"
    by blast+
  from fetchAll_settles [OF all] obtain rs where rs: "fetchAll net feeds = Some rs" ..
  then have len: "length rs = length feeds"
    and nth: "\<And>i. i < length feeds \<Longrightarrow> fetchSingleFeed (net i) (feeds ! i) = Some (rs ! i)"
    by (simp_all add: fetchAll_Some)
  have h: "fst (handler cache now later net req) = Some \<lparr>status = 200, body = ResultsBody rs\<rparr>"
    using handler_miss_settled [OF post feeds miss rs] by simp
  have names: "feed_name (rs ! i) = name (feeds ! i)" if "i < length feeds" for i
    using nth [OF that] by (rule feed_name_fetchSingleFeed)
  have timeout: "rs ! i = \<lparr>feed_name = name (feeds ! i), feed_data = JNull,
                           feed_error = Some abortMessage\<rparr>"
    if "i < length feeds" "net i = TimesOut" for i
    using nth [OF that(1)] that(2) by (simp add: fetchSingleFeed_TimesOut del: fetchSingleFeed.simps)
  have others: "\<exists>rs'. fst (handler cache now later net' req)
                         = Some \<lparr>status = 200, body = ResultsBody rs'\<rparr> \<and> rs' ! i = rs ! i"
    if i: "i < length feeds" and n: "(\<forall>j < length feeds. settles (net' j)) \<and> net' i = net i"
    for i net'
  proof -
    from n fetchAll_settles [of feeds net'] obtain rs' where r': "fetchAll net' feeds = Some rs'"
      by blast
    then have "fetchSingleFeed (net' i) (feeds ! i) = Some (rs' ! i)"
      using i by (simp add: fetchAll_Some)
    with n nth [OF i] have "rs' ! i = rs ! i" by simp
    with handler_miss_settled [OF post feeds miss r'] show ?thesis by simp
  qed
  from h len names timeout others
  show "\<exists>rs. fst (handler cache now later net req)
                     = Some \<lparr>status = 200, body = ResultsBody rs\<rparr> \<and>
                  length rs = length feeds \<and>
                  (\<forall>i < length feeds.
                      feed_name (rs ! i) = name (feeds ! i) \<and>
                      (net i = TimesOut \<longrightarrow>
                         rs ! i = \<lparr>feed_name = name (feeds ! i), feed_data = JNull,
                                   feed_error = Some abortMessage\<rparr>) \<and>
                      (\<forall>net'. (\<forall>j < length feeds. settles (net' j)) \<and> net' i = net i \<longrightarrow>
                         (\<exists>rs'. fst (handler cache now later net' req)
                                   = Some \<lparr>status = 200, body = ResultsBody rs'\<rparr> \<and>
                                rs' ! i = rs ! i)))"
    by (intro exI [of _ rs]) blast
next
  assume b: "cacheSized cache \<and>
          (cacheMiss cache now feeds \<longrightarrow> (\<forall>i < length feeds. settles (net i)))"
  then have sized: "cacheSized cache" by blast
  show "(\<exists>rs. fst (handler cache now later net req)
                     = Some \<lparr>status = 200, body = ResultsBody rs\<rparr> \<and>
                  length rs = length feeds) \<and>
            cacheSized (snd (handler cache now later net req))"
  proof (cases "cacheMiss cache now feeds")
    case True
    with b fetchAll_settles obtain rs where rs: "fetchAll net feeds = Some rs" by blast
    then have "length rs = length feeds" by (simp add: fetchAll_Some)
    with handler_miss_settled [OF post feeds True rs] sized show ?thesis
      by (auto simp: cacheSized_def)
  next
    case False
    then obtain entry where e: "cache (sort (map url feeds)) = Some entry"
      and t: "now - timestamp entry < 60 * 1000"
      by (auto simp: cacheMiss_def split: option.splits)
    from sized e have "length (cached entry) = length feeds"
      by (auto simp: cacheSized_def)
    with handler_hit [where cache = cache and entry = entry, OF post feeds e t] sized
    show ?thesis by simp
  qed
qed

theorem fetch_many_results_witness:
  "fst (handler Map.empty 0 5 (hangAt 1)
          (postFeeds [\<lparr>name = ''a'', url = ''u1''\<rparr>, \<lparr>name = ''b'', url = ''u2''\<rparr>,
                      \<lparr>name = ''c'', url = ''u3''\<rparr>]))
   = Some \<lparr>status = 200,
      body = ResultsBody [\<lparr>feed_name = ''a'', feed_data = JObj [], feed_error = None\<rparr>,
                          \<lparr>feed_name = ''b'', feed_data = JNull, feed_error = Some abortMessage\<rparr>,
                          \<lparr>feed_name = ''c'', feed_data = JObj [], feed_error = None\<rparr>]\<rparr> \<and>
   cacheSized Map.empty"
proof -
  let ?feeds = "[\<lparr>name = ''a'', url = ''u1''\<rparr>, \<lparr>name = ''b'', url = ''u2''\<rparr>,
                 \<lparr>name = ''c'', url = ''u3''\<rparr>]"
  have p: "httpMethod (postFeeds ?feeds) = ''POST''" by (simp add: postFeeds_def)
  have f: "bodyFeeds (postFeeds ?feeds) = Some ?feeds" by (simp add: postFeeds_def)
  have m: "cacheMiss Map.empty 0 ?feeds" by (simp add: cacheMiss_def)
  have s: "\<forall>i < length ?feeds. settles (hangAt 1 i)"
    by (simp add: settles_def hangAt_def okNet_def)
  have z: "cacheSized Map.empty" by (simp add: cacheSized_def)
  from fetch_many_results [OF p f, of Map.empty 0 "hangAt 1" 5] m s z
  obtain rs where
    r: "fst (handler Map.empty 0 5 (hangAt 1) (postFeeds ?feeds))
          = Some \<lparr>status = 200, body = ResultsBody rs\<rparr>"
    and n: "length rs = length ?feeds"
    by blast
  have "fst (handler Map.empty 0 5 (hangAt 1) (postFeeds ?feeds))
          = Some \<lparr>status = 200, body = ResultsBody
              [\<lparr>feed_name = ''a'', feed_data = JObj [], feed_error = None\<rparr>,
               \<lparr>feed_name = ''b'', feed_data = JNull, feed_error = Some abortMessage\<rparr>,
               \<lparr>feed_name = ''c'', feed_data = JObj [], feed_error = None\<rparr>]\<rparr>"
    by (simp add: handler_eval hangAt_def failedFeed_def messageOrUnknown_def abortMessage_def)
  with r have "rs = [\<lparr>feed_name = ''a'', feed_data = JObj [], feed_error = None\<rparr>,
                   \<lparr>feed_name = ''b'', feed_data = JNull, feed_error = Some abortMessage\<rparr>,
                   \<lparr>feed_name = ''c'', feed_data = JObj [], feed_error = None\<rparr>]"
    by simp
  with r z show ?thesis by simp
qed

lemma sort_eq_iff_mset: "sort xs = sort ys \<longleftrightarrow> mset xs = mset ys"
proof
  assume "sort xs = sort ys"
  then have "mset (sort xs) = mset (sort ys)" by simp
  then show "mset xs = mset ys" by simp
next
  assume "mset xs = mset ys"
  then show "sort xs = sort ys" by (intro properties_for_sort) simp_all
qed

text \<open>
  Claim C10.  The cache key is computed from the URLs of the items and from nothing
  else: a request that is fetched is stored under the sorted list of its URLs.  A second
  request looked up less than 60 seconds after the store is answered with the first
  response as it was, names and errors included, and leaves the cache unchanged, when it
  lists the same URLs the same number of times, in any order and under any names; when
  it lists other URLs (and the cache had nothing fresh for them) it is not answered from
  that entry but fetched on its own, its results carrying its own names.
\<close>

theorem cache_ignores_names:
  assumes "httpMethod reqA = ''POST''" and "bodyFeeds reqA = Some feedsA"
    and "httpMethod reqB = ''POST''" and "bodyFeeds reqB = Some feedsB"
    and "cacheMiss cache nowA feedsA"
    and "\<forall>i < length feedsA. settles (netA i)"
    and "nowB - laterA < 60 * 1000"
  shows "\<exists>rsA.
           handler cache nowA laterA netA reqA =
             (Some \<lparr>status = 200, body = ResultsBody rsA\<rparr>,
              cache(sort (map url feedsA) \<mapsto> \<lparr>cached = rsA, timestamp = laterA\<rparr>)) \<and>
           (mset (map url feedsB) = mset (map url feedsA) \<longrightarrow>
              handler (snd (handler cache nowA laterA netA reqA)) nowB laterB netB reqB
                = handler cache nowA laterA netA reqA) \<and>
           (mset (map url feedsB) \<noteq> mset (map url feedsA) \<and> cacheMiss cache nowB feedsB \<and>
            (\<forall>i < length feedsB. settles (netB i)) \<longrightarrow>
              (\<exists>rsB.
                 handler (snd (handler cache nowA laterA netA reqA)) nowB laterB netB reqB =
                   (Some \<lparr>status = 200, body = ResultsBody rsB\<rparr>,
                    (snd (handler cache nowA laterA netA reqA))
                      (sort (map url feedsB) \<mapsto> \<lparr>cached = rsB, timestamp = laterB\<rparr>)) \<and>
                 length rsB = length feedsB \<and>
                 (\<forall>i < length feedsB.
                    fetchSingleFeed (netB i) (feedsB ! i) = Some (rsB ! i) \<and>
                    feed_name (rsB ! i) = name (feedsB ! i))))"
proof -
  from fetchAll_settles [OF assms(6)] obtain rsA where rs: "fetchAll netA feedsA = Some rsA" ..
  let ?c1 = "cache(sort (map url feedsA) \<mapsto> \<lparr>cached = rsA, timestamp = laterA\<rparr>)"
  have first: "handler cache nowA laterA netA reqA =
          (Some \<lparr>status = 200, body = ResultsBody rsA\<rparr>, ?c1)"
    by (rule handler_miss_settled [OF assms(1,2,5) rs])
  have same: "handler ?c1 nowB laterB netB reqB = (Some \<lparr>status = 200, body = ResultsBody rsA\<rparr>, ?c1)"
    if "mset (map url feedsB) = mset (map url feedsA)"
  proof -
    from that have "sort (map url feedsB) = sort (map url feedsA)" by (simp add: sort_eq_iff_mset)
    with assms(3,4,7) show ?thesis by (simp add: handler_def cacheKey_def CACHE_TTL_def)
  qed
  have other: "\<exists>rsB. handler ?c1 nowB laterB netB reqB =
                   (Some \<lparr>status = 200, body = ResultsBody rsB\<rparr>,
                    ?c1(sort (map url feedsB) \<mapsto> \<lparr>cached = rsB, timestamp = laterB\<rparr>)) \<and>
                 length rsB = length feedsB \<and>
                 (\<forall>i < length feedsB.
                    fetchSingleFeed (netB i) (feedsB ! i) = Some (rsB ! i) \<and>
                    feed_name (rsB ! i) = name (feedsB ! i))"
    if d: "mset (map url feedsB) \<noteq> mset (map url feedsA)" and m: "cacheMiss cache nowB feedsB"
      and st: "\<forall>i < length feedsB. settles (netB i)"
  proof -
    from d have "sort (map url feedsB) \<noteq> sort (map url feedsA)"
      by (simp add: sort_eq_iff_mset)
    with m have miss: "cacheMiss ?c1 nowB feedsB" by (simp add: cacheMiss_def)
    from fetchAll_settles [OF st] obtain rsB where rb: "fetchAll netB feedsB = Some rsB" ..
    then have "length rsB = length feedsB"
      and nth: "\<forall>i < length feedsB. fetchSingleFeed (netB i) (feedsB ! i) = Some (rsB ! i)"
      by (simp_all add: fetchAll_Some)
    moreover from nth have "\<forall>i < length feedsB. feed_name (rsB ! i) = name (feedsB ! i)"
      using feed_name_fetchSingleFeed by blast
    ultimately show ?thesis
      using handler_miss_settled [OF assms(3,4) miss rb] by blast
  qed
  from first same other show ?thesis by (intro exI [of _ rsA]) simp
qed

theorem cache_ignores_names_witness:
  "handler
     (snd (handler Map.empty 0 10 okNet
             (postFeeds [\<lparr>name = ''a'', url = ''u1''\<rparr>, \<lparr>name = ''b'', url = ''u2''\<rparr>])))
     59000 59010 (hangAt 0)
     (postFeeds [\<lparr>name = ''c'', url = ''u2''\<rparr>, \<lparr>name = ''d'', url = ''u1''\<rparr>])
   = (Some \<lparr>status = 200,
       body = ResultsBody [\<lparr>feed_name = ''a'', feed_data = JObj [], feed_error = None\<rparr>,
                           \<lparr>feed_name = ''b'', feed_data = JObj [], feed_error = None\<rparr>]\<rparr>,
      [[''u1'', ''u2''] \<mapsto>
         \<lparr>cached = [\<lparr>feed_name = ''a'', feed_data = JObj [], feed_error = None\<rparr>,
                     \<lparr>feed_name = ''b'', feed_data = JObj [], feed_error = None\<rparr>],
          timestamp = 10\<rparr>]) \<and>
   fst (handler
     (snd (handler Map.empty 0 10 okNet
             (postFeeds [\<lparr>name = ''a'', url = ''u1''\<rparr>, \<lparr>name = ''b'', url = ''u2''\<rparr>])))
     59000 59010 (hangAt 0)
     (postFeeds [\<lparr>name = ''a'', url = ''u1''\<rparr>, \<lparr>name = ''b'', url = ''u3''\<rparr>]))
   = Some \<lparr>status = 200,
       body = ResultsBody [\<lparr>feed_name = ''a'', feed_data = JNull, feed_error = Some abortMessage\<rparr>,
                           \<lparr>feed_name = ''b'', feed_data = JObj [], feed_error = None\<rparr>]\<rparr>"
proof -
  let ?A = "[\<lparr>name = ''a'', url = ''u1''\<rparr>, \<lparr>name = ''b'', url = ''u2''\<rparr>]"
  let ?B = "[\<lparr>name = ''c'', url = ''u2''\<rparr>, \<lparr>name = ''d'', url = ''u1''\<rparr>]"
  let ?C = "[\<lparr>name = ''a'', url = ''u1''\<rparr>, \<lparr>name = ''b'', url = ''u3''\<rparr>]"
  let ?rsA = "[\<lparr>feed_name = ''a'', feed_data = JObj [], feed_error = None\<rparr>,
               \<lparr>feed_name = ''b'', feed_data = JObj [], feed_error = None\<rparr>]"
  have 1: "httpMethod (postFeeds ?A) = ''POST''" by (simp add: postFeeds_def)
  have 2: "bodyFeeds (postFeeds ?A) = Some ?A" by (simp add: postFeeds_def)
  have 3: "httpMethod (postFeeds ?B) = ''POST''" by (simp add: postFeeds_def)
  have 4: "bodyFeeds (postFeeds ?B) = Some ?B" by (simp add: postFeeds_def)
  have p3: "httpMethod (postFeeds ?C) = ''POST''" by (simp add: postFeeds_def)
  have p4: "bodyFeeds (postFeeds ?C) = Some ?C" by (simp add: postFeeds_def)
  have 5: "cacheMiss Map.empty 0 ?A" by (simp add: cacheMiss_def)
  have 6: "\<forall>i < length ?A. settles (okNet i)" by (simp add: settles_def okNet_def)
  have 7: "(59000::int) - 10 < 60 * 1000" by simp
  have first: "handler Map.empty 0 10 okNet (postFeeds ?A) =
      (Some \<lparr>status = 200, body = ResultsBody ?rsA\<rparr>,
       [[''u1'', ''u2''] \<mapsto> \<lparr>cached = ?rsA, timestamp = 10\<rparr>])"
    by (simp add: handler_eval)
  have sameB: "mset (map url ?B) = mset (map url ?A)" by (simp add: add.commute)
  have otherC: "mset (map url ?C) \<noteq> mset (map url ?A) \<and> cacheMiss Map.empty 59000 ?C \<and>
            (\<forall>i < length ?C. settles (hangAt 0 i))"
    by (simp add: cacheMiss_def settles_def hangAt_def okNet_def)
  from cache_ignores_names [OF 1 2 3 4 5 6 7, where netB = "hangAt 0" and laterB = 59010] sameB
  have b: "handler (snd (handler Map.empty 0 10 okNet (postFeeds ?A))) 59000 59010 (hangAt 0)
             (postFeeds ?B) = handler Map.empty 0 10 okNet (postFeeds ?A)"
    by blast
  from cache_ignores_names [OF 1 2 p3 p4 5 6 7, where netB = "hangAt 0" and laterB = 59010] otherC
  obtain rsC where
    c: "fst (handler (snd (handler Map.empty 0 10 okNet (postFeeds ?A))) 59000 59010 (hangAt 0)
             (postFeeds ?C)) = Some \<lparr>status = 200, body = ResultsBody rsC\<rparr>"
    and l: "length rsC = length ?C"
    and n: "\<forall>i < length ?C. fetchSingleFeed (hangAt 0 i) (?C ! i) = Some (rsC ! i)"
    by fastforce
  from n have "rsC ! 0 = \<lparr>feed_name = ''a'', feed_data = JNull, feed_error = Some abortMessage\<rparr>"
    and "rsC ! 1 = \<lparr>feed_name = ''b'', feed_data = JObj [], feed_error = None\<rparr>"
    by (auto simp: hangAt_def okNet_def responseOk_def failedFeed_def messageOrUnknown_def
        abortMessage_def)
  with l have "rsC = [\<lparr>feed_name = ''a'', feed_data = JNull, feed_error = Some abortMessage\<rparr>,
                      \<lparr>feed_name = ''b'', feed_data = JObj [], feed_error = None\<rparr>]"
    by (auto simp: list_eq_iff_nth_eq less_Suc_eq)
  with b c first show ?thesis by simp
qed

section \<open>Discovery parser: totality, accepted entries, the fallback name\<close>

lemma unwrap_total: "doc \<noteq> JNull \<Longrightarrow> \<exists>c. unwrapEnvelope doc = Inr c"
  by (cases doc) (auto simp: unwrapEnvelope_def split: option.splits)

lemma unwrap_cases:
  "unwrapEnvelope doc = Inr c \<Longrightarrow> c = doc \<or> field doc ''data'' = Some c"
  by (cases doc) (auto simp: unwrapEnvelope_def split: option.splits if_splits)

lemma discoverFeeds_total: "doc \<noteq> JNull \<Longrightarrow> \<exists>r. discoverFeeds doc fb = Inr r"
  using unwrap_total [of doc]
  by (auto simp: discoverFeeds_def Let_def split: prod.splits option.splits bool.splits)

lemma set_update_subset: "set (AList.update k v al) \<subseteq> insert (k, v) (set al)"
  by (induction al) auto

lemma acceptFeed_entry:
  "(k, u) \<in> set (acceptFeed m e) \<Longrightarrow>
   (k, u) \<in> set m \<or> (field e ''name'' = Some (JStr k) \<and> field e ''url'' = Some (JStr u))"
  using set_update_subset [of _ _ m]
  by (auto simp: acceptFeed_def assignFeed_def split: if_splits option.splits json.splits)

lemma foldl_acceptFeed_entry:
  "(k, u) \<in> set (foldl acceptFeed m fs) \<Longrightarrow>
   (k, u) \<in> set m \<or>
   (\<exists>e \<in> set fs. field e ''name'' = Some (JStr k) \<and> field e ''url'' = Some (JStr u))"
proof (induction fs arbitrary: m)
  case Nil
  then show ?case by simp
next
  case (Cons f fs)
  from Cons.prems have "(k, u) \<in> set (foldl acceptFeed (acceptFeed m f) fs)" by simp
  from Cons.IH [OF this] acceptFeed_entry [of k u m f] show ?case by auto
qed

lemma scanLangs_entry:
  "scanLangs c langs m n = (b, m', n') \<Longrightarrow> (k, u) \<in> set m' \<Longrightarrow>
   (k, u) \<in> set m \<or>
   (\<exists>lang ld fs e. field c lang = Some ld \<and> isObjectValue (Some ld) \<and> feedList ld = Some fs \<and>
       e \<in> set fs \<and> field e ''name'' = Some (JStr k) \<and> field e ''url'' = Some (JStr u))"
proof (induction langs arbitrary: m n)
  case Nil
  then show ?case by simp
next
  case (Cons lang langs)
  show ?case
  proof (cases "field c lang")
    case None
    with Cons.prems have "scanLangs c langs m n = (b, m', n')" by simp
    from Cons.IH [OF this Cons.prems(2)] show ?thesis .
  next
    case (Some ld)
    show ?thesis
    proof (cases "isObjectValue (Some ld) \<and> feedList ld \<noteq> None")
      case False
      with Some Cons.prems have "scanLangs c langs m n = (b, m', n')"
        by (auto split: option.splits)
      from Cons.IH [OF this Cons.prems(2)] show ?thesis .
    next
      case True
      then obtain fs where fs: "feedList ld = Some fs" and ob: "isObjectValue (Some ld)" by auto
      let ?m = "foldl acceptFeed m fs"
      have found: "(k, u) \<in> set ?m \<Longrightarrow> ?thesis"
        using foldl_acceptFeed_entry [of k u m fs] Some fs ob by blast
      show ?thesis
      proof (cases "?m = []")
        case True
        with Some fs ob Cons.prems(1)
        have "scanLangs c langs ?m (nameOr (field ld ''name'') n) = (b, m', n')"
          by (simp add: Let_def)
        from Cons.IH [OF this Cons.prems(2)] True show ?thesis by auto
      next
        case False
        with Some fs ob Cons.prems(1) have "m' = ?m" by (simp add: Let_def)
        with Cons.prems(2) found show ?thesis by simp
      qed
    qed
  qed
qed


lemma unwrap_content: "doc \<noteq> JNull \<Longrightarrow> unwrapEnvelope doc = Inr (envelopeContent doc)"
  by (cases doc) (auto simp: unwrapEnvelope_def envelopeContent_def split: option.splits)

lemma unwrap_Inr: "unwrapEnvelope doc = Inr c \<Longrightarrow> c = envelopeContent doc"
  by (cases doc) (auto simp: unwrapEnvelope_def envelopeContent_def split: option.splits if_splits)

lemma feedList_Some: "feedList b = Some fs \<longleftrightarrow> field b ''feeds'' = Some (JArr fs)"
  by (auto simp: feedList_def split: option.splits json.splits)

lemma scanLangs_name:
  assumes "\<And>lang ld fs. field c lang = Some ld \<Longrightarrow> isObjectValue (Some ld) \<Longrightarrow>
             feedList ld = Some fs \<Longrightarrow> \<not> truthy (field ld ''name'')"
  shows "scanLangs c langs m n = (b, m', n') \<Longrightarrow> n' = n"
proof (induction langs arbitrary: m)
  case Nil
  then show ?case by simp
next
  case (Cons lang langs)
  show ?case
  proof (cases "field c lang")
    case None
    with Cons show ?thesis by simp
  next
    case (Some ld)
    show ?thesis
    proof (cases "isObjectValue (Some ld) \<and> feedList ld \<noteq> None")
      case False
      with Some Cons show ?thesis by (auto split: option.splits)
    next
      case True
      then obtain fs where fs: "feedList ld = Some fs" and ob: "isObjectValue (Some ld)" by auto
      from assms [OF Some ob fs] have nm: "nameOr (field ld ''name'') n = n"
        by (auto simp: nameOr_def split: option.splits)
      from Some fs ob nm Cons.prems Cons.IH [of "foldl acceptFeed m fs"] show ?thesis
        by (auto simp: Let_def split: if_splits)
    qed
  qed
qed

lemma discover_entry:
  assumes "discoverFeeds doc fb = Inr r" and "(k, u) \<in> set (discoveredFeedUrls r)"
  shows "\<exists>b fs entry. feedBlock (envelopeContent doc) b fs \<and> entry \<in> set fs \<and>
           field entry ''name'' = Some (JStr k) \<and> field entry ''url'' = Some (JStr u)"
proof -
  from assms(1) obtain c where c: "unwrapEnvelope doc = Inr c"
    by (cases "unwrapEnvelope doc") (auto simp: discoverFeeds_def)
  then have ce: "c = envelopeContent doc" by (rule unwrap_Inr)
  obtain b m n where s: "scanLangs c (setOrder (langPriority @ map fst (ownProps c))) [] (JStr fb) = (b, m, n)"
    using prod_cases3 by blast
  have "\<exists>b fs entry. feedBlock c b fs \<and> entry \<in> set fs \<and>
           field entry ''name'' = Some (JStr k) \<and> field entry ''url'' = Some (JStr u)"
  proof (cases "(k, u) \<in> set m")
    case True
    from scanLangs_entry [OF s True] obtain lang ld fs e where
      "field c lang = Some ld" "isObjectValue (Some ld)" "feedList ld = Some fs" "e \<in> set fs"
      "field e ''name'' = Some (JStr k)" "field e ''url'' = Some (JStr u)" by auto
    then have "feedBlock c ld fs" by (auto simp: feedBlock_def feedList_Some)
    with \<open>e \<in> set fs\<close> \<open>field e ''name'' = Some (JStr k)\<close> \<open>field e ''url'' = Some (JStr u)\<close>
    show ?thesis by blast
  next
    case False
    with assms c s obtain fs where fs: "feedList c = Some fs"
      and "(k, u) \<in> set (foldl acceptFeed m fs)"
      by (cases b) (auto simp: discoverFeeds_def Let_def split: option.splits)
    with False foldl_acceptFeed_entry [of k u m fs] obtain e where
      "e \<in> set fs" "field e ''name'' = Some (JStr k)" "field e ''url'' = Some (JStr u)" by blast
    moreover from fs have "feedBlock c c fs" by (simp add: feedBlock_def feedList_Some)
    ultimately show ?thesis by blast
  qed
  with ce show ?thesis by simp
qed

lemma discover_name:
  assumes "discoverFeeds doc fb = Inr r"
    and "\<forall>b fs. feedBlock (envelopeContent doc) b fs \<longrightarrow> \<not> truthy (field b ''name'')"
  shows "nameFromGbfsJson r = JStr fb"
proof -
  from assms(1) obtain c where c: "unwrapEnvelope doc = Inr c"
    by (cases "unwrapEnvelope doc") (auto simp: discoverFeeds_def)
  then have ce: "c = envelopeContent doc" by (rule unwrap_Inr)
  obtain b m n where s: "scanLangs c (setOrder (langPriority @ map fst (ownProps c))) [] (JStr fb) = (b, m, n)"
    using prod_cases3 by blast
  have "n = JStr fb"
  proof (rule scanLangs_name [OF _ s])
    fix lang ld fs
    assume "field c lang = Some ld" "isObjectValue (Some ld)" "feedList ld = Some fs"
    then have "feedBlock c ld fs" by (auto simp: feedBlock_def feedList_Some)
    with assms(2) ce show "\<not> truthy (field ld ''name'')" by blast
  qed
  moreover have "nameOr (field c ''name'') n = n" if "feedList c = Some fs" for fs
  proof -
    from that have "feedBlock c c fs" by (simp add: feedBlock_def feedList_Some)
    with assms(2) ce have "\<not> truthy (field c ''name'')" by blast
    then show ?thesis by (auto simp: nameOr_def split: option.splits)
  qed
  ultimately show ?thesis
    using assms(1) c s by (cases b) (auto simp: discoverFeeds_def Let_def split: option.splits)
qed

text \<open>
  Claim C7, as stated, fails: a language block whose feed list yields no feed still
  replaces the fallback name by its own.
\<close>

theorem discovery_parser_counterexample:
  "discoverFeeds (JObj [(''en'', JObj [(''name'', JStr ''X''), (''feeds'', JArr [])])]) ''fallback''
     = Inr \<lparr>discoveredFeedUrls = [], nameFromGbfsJson = JStr ''X''\<rparr>"
  by (simp add: discoverFeeds_def unwrapEnvelope_def field_def setOrder_def langPriority_def
      feedList_def nameOr_def)

text \<open>
  Claim C7, amended.  The parser throws on no document (the document \<^verbatim>\<open>null\<close>, which
  its caller never passes, apart).  Every pair of its feed map comes from an entry of a
  feed block that has that string \<^verbatim>\<open>name\<close> and that string \<^verbatim>\<open>url\<close>; so the map is
  empty when no feed block has such an entry.  The name returned is the fallback name
  whenever no feed block carries a truthy \<^verbatim>\<open>name\<close> of its own.
\<close>

theorem discovery_parser:
  "(doc \<noteq> JNull \<longrightarrow> (\<exists>r. discoverFeeds doc fallback = Inr r)) \<and>
   (\<forall>r. discoverFeeds doc fallback = Inr r \<longrightarrow>
      (\<forall>(k, u) \<in> set (discoveredFeedUrls r).
          \<exists>b fs entry. feedBlock (envelopeContent doc) b fs \<and> entry \<in> set fs \<and>
             field entry ''name'' = Some (JStr k) \<and> field entry ''url'' = Some (JStr u)) \<and>
      ((\<forall>b fs entry k u. feedBlock (envelopeContent doc) b fs \<longrightarrow> entry \<in> set fs \<longrightarrow>
           \<not> (field entry ''name'' = Some (JStr k) \<and> field entry ''url'' = Some (JStr u))) \<longrightarrow>
         discoveredFeedUrls r = []) \<and>
      ((\<forall>b fs. feedBlock (envelopeContent doc) b fs \<longrightarrow> \<not> truthy (field b ''name'')) \<longrightarrow>
         nameFromGbfsJson r = JStr fallback))"
proof (intro conjI allI impI)
  assume "doc \<noteq> JNull"
  then show "\<exists>r. discoverFeeds doc fallback = Inr r" by (rule discoverFeeds_total)
next
  fix r assume r: "discoverFeeds doc fallback = Inr r"
  show "\<forall>(k, u) \<in> set (discoveredFeedUrls r).
          \<exists>b fs entry. feedBlock (envelopeContent doc) b fs \<and> entry \<in> set fs \<and>
             field entry ''name'' = Some (JStr k) \<and> field entry ''url'' = Some (JStr u)"
    using discover_entry [OF r] by auto
next
  fix r assume r: "discoverFeeds doc fallback = Inr r"
    and no: "\<forall>b fs entry k u. feedBlock (envelopeContent doc) b fs \<longrightarrow> entry \<in> set fs \<longrightarrow>
           \<not> (field entry ''name'' = Some (JStr k) \<and> field entry ''url'' = Some (JStr u))"
  show "discoveredFeedUrls r = []"
  proof (cases "discoveredFeedUrls r")
    case (Cons p ps)
    obtain k u where "p = (k, u)" by (cases p)
    with Cons have "(k, u) \<in> set (discoveredFeedUrls r)" by simp
    from discover_entry [OF r this] no show ?thesis by blast
  qed simp
next
  fix r assume "discoverFeeds doc fallback = Inr r"
    "\<forall>b fs. feedBlock (envelopeContent doc) b fs \<longrightarrow> \<not> truthy (field b ''name'')"
  then show "nameFromGbfsJson r = JStr fallback" by (rule discover_name)
qed

theorem discovery_parser_witness:
  "discoverFeeds
     (JObj [(''en'', JObj [(''name'', JStr ''X''),
        (''feeds'', JArr [JObj [(''name'', JStr ''station_status''), (''url'', JStr ''u'')]])])])
     ''fallback''
     = Inr \<lparr>discoveredFeedUrls = [(''station_status'', ''u'')], nameFromGbfsJson = JStr ''X''\<rparr> \<and>
   (\<exists>b fs entry.
      feedBlock (envelopeContent
        (JObj [(''en'', JObj [(''name'', JStr ''X''),
           (''feeds'', JArr [JObj [(''name'', JStr ''station_status''), (''url'', JStr ''u'')]])])]))
        b fs \<and>
      entry \<in> set fs \<and> field entry ''name'' = Some (JStr ''station_status'') \<and>
      field entry ''url'' = Some (JStr ''u'')) \<and>
   (\<exists>r. discoverFeeds (JObj [(''en'', JObj [(''feeds'', JArr [JObj [(''name'', JNum 1)]])])])
          ''fallback'' = Inr r \<and>
        discoveredFeedUrls r = [] \<and> nameFromGbfsJson r = JStr ''fallback'')"
proof -
  let ?A = "JObj [(''en'', JObj [(''name'', JStr ''X''),
        (''feeds'', JArr [JObj [(''name'', JStr ''station_status''), (''url'', JStr ''u'')]])])]"
  let ?B = "JObj [(''en'', JObj [(''feeds'', JArr [JObj [(''name'', JNum 1)]])])]"
  have a: "discoverFeeds ?A ''fallback''
     = Inr \<lparr>discoveredFeedUrls = [(''station_status'', ''u'')], nameFromGbfsJson = JStr ''X''\<rparr>"
    by (simp add: discoverFeeds_def unwrapEnvelope_def field_def setOrder_def langPriority_def
        feedList_def nameOr_def acceptFeed_def assignFeed_def)
  have blockB: "b = JObj [(''feeds'', JArr [JObj [(''name'', JNum 1)]])] \<and>
                fs = [JObj [(''name'', JNum 1)]]"
    if "feedBlock (envelopeContent ?B) b fs" for b fs
    using that by (auto simp: feedBlock_def envelopeContent_def field_def split: if_splits)
  have noEntry: "\<forall>b fs entry k u. feedBlock (envelopeContent ?B) b fs \<longrightarrow> entry \<in> set fs \<longrightarrow>
           \<not> (field entry ''name'' = Some (JStr k) \<and> field entry ''url'' = Some (JStr u))"
    using blockB by (fastforce simp: field_def)
  have noName: "\<forall>b fs. feedBlock (envelopeContent ?B) b fs \<longrightarrow> \<not> truthy (field b ''name'')"
    using blockB by (fastforce simp: field_def)
  have nn: "?B \<noteq> JNull" by simp
  from discovery_parser [of ?A "''fallback''"] a
  have entryA: "\<exists>b fs entry. feedBlock (envelopeContent ?A) b fs \<and> entry \<in> set fs \<and>
      field entry ''name'' = Some (JStr ''station_status'') \<and>
      field entry ''url'' = Some (JStr ''u'')"
    by fastforce
  from discovery_parser [of ?B "''fallback''"] nn noEntry noName
  have "\<exists>r. discoverFeeds ?B ''fallback'' = Inr r \<and>
        discoveredFeedUrls r = [] \<and> nameFromGbfsJson r = JStr ''fallback''"
    by blast
  with a entryA show ?thesis by blast
qed

section \<open>Catalog credentials and paging\<close>

lemma isTokenExpired_refreshDue:
  assumes "tokenExpiresAt tm = None \<or>
           (\<exists>expiry. tokenExpiresAt tm = Some (Date expiry) \<and>
                     \<bar>expiry - 5 * 60 * 1000\<bar> \<le> 8640000000000000)"
  shows "isTokenExpired tm now = refreshDue tm now"
  using assms
  by (auto simp: isTokenExpired_def refreshDue_def bufferTime_def newDate_def maxTimeValue_def)

lemma invalid_expiry_never_refreshes:
  "truthy (accessToken tm) \<Longrightarrow> tokenExpiresAt tm = Some InvalidDate \<Longrightarrow>
   getAccessToken api now later tm = (Inr (accessToken tm), tm, [])"
  by (simp add: getAccessToken_def isTokenExpired_def newDate_def)

lemma refresh_calls:
  "envRefreshToken api = Some rt \<Longrightarrow> rt \<noteq> [] \<Longrightarrow>
   snd (snd (refreshAccessToken api later tm)) = [TokenPost rt]"
  by (auto simp: refreshAccessToken_def split: httpResponse.splits option.splits sum.splits)

text \<open>
  Claim C9.  For a stored expiry that is a time (one from which five minutes can be
  taken within the range of a \<^verbatim>\<open>Date\<close>), or none stored: \<open>getAccessToken\<close> runs the
  refresh when, and only when, a refresh is due, that is, there is no stored token or the
  clock is at or past the stored expiry less five minutes.  With a refresh credential
  configured that is exactly when the token endpoint is posted to.  A token that expires
  in four minutes is refreshed.
\<close>

theorem token_refresh:
  assumes "tokenExpiresAt tm = None \<or>
           (\<exists>expiry. tokenExpiresAt tm = Some (Date expiry) \<and>
                     \<bar>expiry - 5 * 60 * 1000\<bar> \<le> 8640000000000000)"
  shows
  "(refreshDue tm now \<longrightarrow> getAccessToken api now later tm = refreshAccessToken api later tm) \<and>
   (\<not> refreshDue tm now \<longrightarrow> getAccessToken api now later tm = (Inr (accessToken tm), tm, [])) \<and>
   (envRefreshToken api = Some rt \<and> rt \<noteq> [] \<longrightarrow>
      (snd (snd (getAccessToken api now later tm)) = [TokenPost rt]) = refreshDue tm now) \<and>
   (tokenExpiresAt tm = Some (Date (now + 4 * 60 * 1000)) \<longrightarrow>
      getAccessToken api now later tm = refreshAccessToken api later tm)"
proof -
  have due: "refreshDue tm now" if "tokenExpiresAt tm = Some (Date (now + 4 * 60 * 1000))"
    using that by (simp add: refreshDue_def)
  show ?thesis
    using due
    by (auto simp: getAccessToken_def isTokenExpired_refreshDue [OF assms] refresh_calls)
qed

theorem token_refresh_witness:
  "getAccessToken exampleApi 1000000 1000010
     \<lparr>accessToken = Some (JStr ''stale''), tokenExpiresAt = Some (Date (1000000 + 4 * 60 * 1000))\<rparr>
   = (Inr (Some (JStr ''fresh'')),
      \<lparr>accessToken = Some (JStr ''fresh''), tokenExpiresAt = Some (Date (1000010 + 3600 * 1000))\<rparr>,
      [TokenPost ''refresh''])"
proof -
  let ?tm = "\<lparr>accessToken = Some (JStr ''stale''),
              tokenExpiresAt = Some (Date (1000000 + 4 * 60 * 1000))\<rparr>"
  have r: "tokenExpiresAt ?tm = None \<or>
           (\<exists>expiry. tokenExpiresAt ?tm = Some (Date expiry) \<and>
                     \<bar>expiry - 5 * 60 * 1000\<bar> \<le> 8640000000000000)"
    by simp
  from token_refresh [OF r, of 1000000 exampleApi 1000010 "''refresh''"]
  have "getAccessToken exampleApi 1000000 1000010 ?tm = refreshAccessToken exampleApi 1000010 ?tm"
    by simp
  then show ?thesis
    by (simp add: refreshAccessToken_def exampleApi_def responseOk_def expiresInSeconds_def
        orElse_def field_def newDate_def maxTimeValue_def)
qed

lemma fetchPages_run:
  assumes "\<forall>i \<le> k. \<exists>st d. responseOk st \<and> pageFeedsOf d = Inr (pages i) \<and>
             feedsEndpoint api dt pageLimit (off + i * pageLimit) tok = Http st (Some d)"
    and "\<forall>i < k. length (pages i) \<ge> pageLimit"
    and "length (pages k) < pageLimit"
  shows "fetchPages api dt tok off acc calls =
           Some (Inr (acc @ concat (map pages [0..<Suc k])),
                 calls @ map (\<lambda>i. FeedsGet dt pageLimit (off + i * pageLimit) tok) [0..<Suc k])"
  using assms
proof (induction k arbitrary: off acc calls pages)
  case 0
  then obtain st d where "responseOk st" "pageFeedsOf d = Inr (pages 0)"
    "feedsEndpoint api dt pageLimit off tok = Http st (Some d)" by auto
  with 0(3) show ?case
    by (subst fetchPages.simps) (simp add: Let_def)
next
  case (Suc k)
  from Suc.prems(1) obtain st d where st: "responseOk st" "pageFeedsOf d = Inr (pages 0)"
    "feedsEndpoint api dt pageLimit off tok = Http st (Some d)" by force
  from Suc.prems(2) have len: "length (pages 0) \<ge> pageLimit" by simp
  have pos: "0 < pageLimit" by (simp add: pageLimit_def)
  have step: "fetchPages api dt tok off acc calls =
          fetchPages api dt tok (off + pageLimit) (acc @ pages 0)
            (calls @ [FeedsGet dt pageLimit off tok])"
    using st len pos by (subst fetchPages.simps) (auto simp: Let_def)
  have a: "\<forall>i \<le> k. \<exists>st d. responseOk st \<and> pageFeedsOf d = Inr ((\<lambda>j. pages (Suc j)) i) \<and>
             feedsEndpoint api dt pageLimit (off + pageLimit + i * pageLimit) tok
               = Http st (Some d)"
  proof (intro allI impI)
    fix i assume "i \<le> k"
    then have "Suc i \<le> Suc k" by simp
    with Suc.prems(1) obtain s d where "responseOk s" "pageFeedsOf d = Inr (pages (Suc i))"
      "feedsEndpoint api dt pageLimit (off + Suc i * pageLimit) tok = Http s (Some d)"
      by blast
    then show "\<exists>st d. responseOk st \<and> pageFeedsOf d = Inr ((\<lambda>j. pages (Suc j)) i) \<and>
             feedsEndpoint api dt pageLimit (off + pageLimit + i * pageLimit) tok
               = Http st (Some d)"
      by (auto simp: add.assoc)
  qed
  have b: "\<forall>i < k. length ((\<lambda>j. pages (Suc j)) i) \<ge> pageLimit" using Suc.prems(2) by simp
  have c: "length ((\<lambda>j. pages (Suc j)) k) < pageLimit" using Suc.prems(3) by simp
  have m: "map pages [0..<Suc (Suc k)] = pages 0 # map (\<lambda>j. pages (Suc j)) [0..<Suc k]"
    by (simp only: upt_conv_Cons [of 0 "Suc (Suc k)"] map_Suc_upt [symmetric]) simp
  have g: "map (\<lambda>i. FeedsGet dt pageLimit (off + i * pageLimit) tok) [0..<Suc (Suc k)] =
           FeedsGet dt pageLimit off tok #
           map (\<lambda>i. FeedsGet dt pageLimit (off + pageLimit + i * pageLimit) tok) [0..<Suc k]"
    by (simp only: upt_conv_Cons [of 0 "Suc (Suc k)"] map_Suc_upt [symmetric])
       (simp add: add.assoc)
  show ?case
    using Suc.IH [OF a b c, of "acc @ pages 0" "calls @ [FeedsGet dt pageLimit off tok]"]
    by (simp only: step m g) simp
qed

text \<open>
  Claim C8.  With the limit fixed at 1000, when the upstream answers the offsets
  \<open>0, 1000, \<dots>, (k - 1) * 1000\<close> with full pages and the offset \<open>k * 1000\<close> with a
  page of fewer than 1000 records (possibly none), the fetcher returns the pages
  concatenated in order, having requested exactly those \<open>k + 1\<close> offsets: nothing is
  requested after the short page.
\<close>

theorem catalog_paging:
  assumes "getAccessToken api now later tm = (Inr token, tm', calls)"
    and "\<forall>i \<le> k. \<exists>st d. responseOk st \<and> pageFeedsOf d = Inr (pages i) \<and>
           feedsEndpoint api dataType 1000 (i * 1000) token = Http st (Some d)"
    and "\<forall>i < k. length (pages i) \<ge> 1000"
    and "length (pages k) < 1000"
  shows "fetchAllGbfsFeeds api now later tm dataType =
           Some (Inr (concat (map pages [0..<Suc k])), tm',
                 calls @ map (\<lambda>i. FeedsGet dataType 1000 (i * 1000) token) [0..<Suc k])"
proof -
  have "fetchPages api dataType token 0 [] calls =
           Some (Inr ([] @ concat (map pages [0..<Suc k])),
                 calls @ map (\<lambda>i. FeedsGet dataType pageLimit (0 + i * pageLimit) token) [0..<Suc k])"
    using assms(2-4) by (intro fetchPages_run) (simp_all add: pageLimit_def)
  with assms(1) show ?thesis
    by (simp add: fetchAllGbfsFeeds_def pageLimit_def)
qed

theorem catalog_paging_witness:
  "fetchAllGbfsFeeds exampleApi 0 10 \<lparr>accessToken = None, tokenExpiresAt = None\<rparr> ''gbfs'' =
     Some (Inr (examplePage 0 @ examplePage 1 @ examplePage 2),
           \<lparr>accessToken = Some (JStr ''fresh''), tokenExpiresAt = Some (Date (10 + 3600 * 1000))\<rparr>,
           [TokenPost ''refresh'',
            FeedsGet ''gbfs'' 1000 0 (Some (JStr ''fresh'')),
            FeedsGet ''gbfs'' 1000 1000 (Some (JStr ''fresh'')),
            FeedsGet ''gbfs'' 1000 2000 (Some (JStr ''fresh''))]) \<and>
   length (examplePage 0) = 1000 \<and> length (examplePage 1) = 1000 \<and>
   length (examplePage 2) = 400 \<and>
   length (examplePage 0 @ examplePage 1 @ examplePage 2) = 2400"
proof -
  have t: "getAccessToken exampleApi 0 10 \<lparr>accessToken = None, tokenExpiresAt = None\<rparr> =
            (Inr (Some (JStr ''fresh'')),
             \<lparr>accessToken = Some (JStr ''fresh''), tokenExpiresAt = Some (Date (10 + 3600 * 1000))\<rparr>,
             [TokenPost ''refresh''])"
    by (simp add: getAccessToken_def isTokenExpired_def refreshAccessToken_def exampleApi_def
        responseOk_def expiresInSeconds_def orElse_def field_def newDate_def maxTimeValue_def)
  have p: "\<forall>i \<le> 2. \<exists>st d. responseOk st \<and> pageFeedsOf d = Inr (examplePage i) \<and>
             feedsEndpoint exampleApi ''gbfs'' 1000 (i * 1000) (Some (JStr ''fresh''))
               = Http st (Some d)"
    by (simp add: exampleApi_def responseOk_def pageFeedsOf_def)
  have f: "\<forall>i < 2. length (examplePage i) \<ge> 1000" by (simp add: examplePage_def)
  have l: "length (examplePage 2) < 1000" by (simp add: examplePage_def)
  have u: "[0..<3] = [0::nat, 1, 2]" by code_simp
  have n: "length (examplePage 0) = 1000 \<and> length (examplePage 1) = 1000 \<and>
           length (examplePage 2) = 400"
    by (simp add: examplePage_def)
  from catalog_paging [OF t p f l] n show ?thesis by (simp add: u)
qed

end
